theory Spec2Isabelle
  imports Complex_Main "HOL-Library.Sublist"
begin

section \<open>The Chainer MNIST local-mode notebook\<close>

text \<open>
  The notebook \<^verbatim>\<open>chainer_mnist_local_mode.ipynb\<close> is a sequence of code cells. Every cell
  is embedded as a function in a state-and-exception monad over a world that holds the
  log of the calls made so far and the local file system. The libraries the cells call
  (the SageMaker SDK, Chainer, numpy's file output, the shell, matplotlib, IPython) are
  not part of the repository: their results are parameters, collected in an environment.
  Cells are run in the order of the notebook; a cell that raises stops the run.
\<close>

subsection \<open>Python exceptions\<close>

datatype exn =
    OSError
  | FileExistsError
  | FileNotFoundError
  | PermissionError
  | NotADirectoryError
  | ValueError
  | IndexError
  | KeyError string
  | NameError string
  | OtherError string

text \<open>\<^verbatim>\<open>isinstance(e, OSError)\<close>: the classes of Python's built-in hierarchy below OSError.\<close>

fun is_OSError :: "exn \<Rightarrow> bool" where
  "is_OSError OSError = True"
| "is_OSError FileExistsError = True"
| "is_OSError FileNotFoundError = True"
| "is_OSError PermissionError = True"
| "is_OSError NotADirectoryError = True"
| "is_OSError _ = False"

subsection \<open>Data handed between the cells\<close>

text \<open>
  Pixels and scores are floating-point values: NaN, an infinity or a finite number
  (\<^typ>\<open>rat\<close> stands for the finite values). The comparison is that of IEEE 754: it is
  false as soon as one side is NaN.
\<close>

datatype flt = NaN | NegInf | Fin rat | PosInf

fun is_nan :: "flt \<Rightarrow> bool" where
  "is_nan NaN = True"
| "is_nan _ = False"

fun flt_le :: "flt \<Rightarrow> flt \<Rightarrow> bool" where
  "flt_le NaN y = False"
| "flt_le x NaN = False"
| "flt_le NegInf y = True"
| "flt_le x PosInf = True"
| "flt_le (Fin a) (Fin b) = (a \<le> b)"
| "flt_le x y = False"

definition flt_less :: "flt \<Rightarrow> flt \<Rightarrow> bool" where
  "flt_less x y \<longleftrightarrow> flt_le x y \<and> \<not> flt_le y x"

type_synonym image = "flt list"

text \<open>
  What the drawing widget stores in the variable \<^verbatim>\<open>data\<close>: numbers and nested lists of
  them.
\<close>

datatype pydata = PyNum rat | PyList "pydata list"
type_synonym dataset = "(image \<times> int) list"

record session =
  region_name :: string

record estimator =
  entry_point :: string
  role :: string
  train_instance_count :: nat
  train_instance_type :: string
  hyperparameters :: "(string \<times> int) list"

type_synonym predictor = string

text \<open>A two-dimensional array: the number of columns and the rows.\<close>

record arr2 =
  ncols :: nat
  rows :: "flt list list"

type_synonym desc = "(string \<times> (string \<times> string) list) list"

datatype pv = PStr string | PNat nat | PNats "nat list"

subsection \<open>Calls, the log and the world\<close>

datatype call =
    Session
  | GetExecutionRole
  | Shell string
  | GetMnist
  | Makedirs string
  | Savez string "image list" "int list"
  | UploadData session string string
  | Rmtree string
  | SubprocessCall string
  | Print string "pv list"
  | Chainer estimator
  | Fit estimator "(string \<times> string) list"
  | LatestTrainingJobName estimator
  | DescribeTrainingJob string
  | ImageNew string nat nat
  | Display "string list"
  | Deploy estimator nat string
  | Subplot nat nat nat
  | Imshow "flt list list" string
  | Title int
  | Axis string
  | Predict predictor "flt list list"
  | OpenRead string
  | HTMLNew string
  | DeleteEndpoint estimator

type_synonym event = "call \<times> exn option"

record world =
  trace :: "event list"
  fs :: "string set"

type_synonym 'a m = "world \<Rightarrow> (exn + 'a) \<times> world"

text \<open>
  The environment gives the outcome of every library call. Its first argument is the
  number of calls made before, so that the same call may end differently at different
  moments of a run.
\<close>

record env =
  env_Session :: "nat \<Rightarrow> exn + session"
  env_get_execution_role :: "nat \<Rightarrow> exn + string"
  env_shell :: "nat \<Rightarrow> string \<Rightarrow> int"
  env_get_mnist :: "nat \<Rightarrow> exn + (dataset \<times> dataset)"
  env_proc :: "nat \<Rightarrow> call \<Rightarrow> exn option"
  env_upload_data :: "nat \<Rightarrow> session \<Rightarrow> string \<Rightarrow> string \<Rightarrow> exn + string"
  env_subprocess_call :: "nat \<Rightarrow> string \<Rightarrow> exn + int"
  env_latest_training_job_name :: "nat \<Rightarrow> estimator \<Rightarrow> exn + string"
  env_describe_training_job :: "nat \<Rightarrow> string \<Rightarrow> exn + desc"
  env_deploy :: "nat \<Rightarrow> estimator \<Rightarrow> nat \<Rightarrow> string \<Rightarrow> exn + predictor"
  env_random :: "nat \<Rightarrow> nat \<Rightarrow> nat"
  env_predict :: "nat \<Rightarrow> predictor \<Rightarrow> flt list list \<Rightarrow> exn + arr2"
  env_read :: "nat \<Rightarrow> string \<Rightarrow> exn + string"
  env_data :: "pydata option"
  env_np_array_float32 :: "pydata \<Rightarrow> exn + flt list list"

subsection \<open>Sequencing, raising, \<^verbatim>\<open>try\<close>/\<^verbatim>\<open>finally\<close> and \<^verbatim>\<open>try\<close>/\<^verbatim>\<open>except OSError\<close>\<close>

definition ret :: "'a \<Rightarrow> 'a m" where
  "ret x w = (Inr x, w)"

definition raise :: "exn \<Rightarrow> 'a m" where
  "raise e w = (Inl e, w)"

definition lift :: "exn + 'a \<Rightarrow> 'a m" where
  "lift r w = (r, w)"

definition bnd :: "'a m \<Rightarrow> ('a \<Rightarrow> 'b m) \<Rightarrow> 'b m" where
  "bnd f g w = (case f w of (Inl e, w') \<Rightarrow> (Inl e, w') | (Inr x, w') \<Rightarrow> g x w')"

text \<open>
  \<^verbatim>\<open>try: body finally: fin\<close>: the cleanup runs in every case; an exception of the cleanup
  replaces the outcome of the body, otherwise the outcome of the body stands.
\<close>

definition try_finally :: "'a m \<Rightarrow> unit m \<Rightarrow> 'a m" where
  "try_finally body fin w =
     (case body w of (r, w1) \<Rightarrow>
        (case fin w1 of (Inl e2, w2) \<Rightarrow> (Inl e2, w2) | (Inr _, w2) \<Rightarrow> (r, w2)))"

text \<open>\<^verbatim>\<open>try: body except OSError: handler\<close>.\<close>

definition try_except_OSError :: "'a m \<Rightarrow> 'a m \<Rightarrow> 'a m" where
  "try_except_OSError body handler w =
     (case body w of
        (Inl e, w1) \<Rightarrow> (if is_OSError e then handler w1 else (Inl e, w1))
      | (Inr x, w1) \<Rightarrow> (Inr x, w1))"

text \<open>\<^verbatim>\<open>for x in xs: body\<close>.\<close>

primrec for_each :: "'a list \<Rightarrow> ('a \<Rightarrow> unit m) \<Rightarrow> unit m" where
  "for_each [] body = ret ()"
| "for_each (x # xs) body = bnd (body x) (\<lambda>_. for_each xs body)"

text \<open>
  A library call: it is logged with its outcome; when it returns, its effect on the
  file system takes place.
\<close>

definition ext :: "call \<Rightarrow> (nat \<Rightarrow> exn + 'a) \<Rightarrow> (string set \<Rightarrow> string set) \<Rightarrow> 'a m" where
  "ext c orc eff w =
     (case orc (length (trace w)) of
        Inl e \<Rightarrow> (Inl e, w\<lparr>trace := trace w @ [(c, Some e)]\<rparr>)
      | Inr v \<Rightarrow> (Inr v, w\<lparr>trace := trace w @ [(c, None)], fs := eff (fs w)\<rparr>))"

definition proc_outcome :: "exn option \<Rightarrow> exn + unit" where
  "proc_outcome x = (case x of None \<Rightarrow> Inr () | Some e \<Rightarrow> Inl e)"

definition proc :: "env \<Rightarrow> call \<Rightarrow> (string set \<Rightarrow> string set) \<Rightarrow> unit m" where
  "proc env c eff = ext c (\<lambda>t. proc_outcome (env_proc env t c)) eff"

subsection \<open>The file system\<close>

text \<open>A path lies under a directory when it is the directory or continues it after a slash.\<close>

definition under :: "string \<Rightarrow> string \<Rightarrow> bool" where
  "under d p \<longleftrightarrow> p = d \<or> prefix (d @ ''/'') p"

definition fs_makedirs :: "string \<Rightarrow> string set \<Rightarrow> string set" where
  "fs_makedirs p S = S \<union> set (filter (\<lambda>q. q \<noteq> [] \<and> under q p) (prefixes p))"

definition fs_write :: "string \<Rightarrow> string set \<Rightarrow> string set" where
  "fs_write p S = insert p S"

definition fs_rmtree :: "string \<Rightarrow> string set \<Rightarrow> string set" where
  "fs_rmtree d S = Set.filter (\<lambda>p. \<not> under d p) S"

text \<open>\<^verbatim>\<open>os.path.join(a, b)\<close> on POSIX.\<close>

definition os_path_join :: "string \<Rightarrow> string \<Rightarrow> string" where
  "os_path_join a b =
     (if b \<noteq> [] \<and> hd b = CHR ''/'' then b
      else if a = [] \<or> last a = CHR ''/'' then a @ b
      else a @ ''/'' @ b)"

subsection \<open>The library calls as the cells write them\<close>

definition os_makedirs :: "env \<Rightarrow> string \<Rightarrow> unit m" where
  "os_makedirs env p = proc env (Makedirs p) (fs_makedirs p)"

definition np_savez :: "env \<Rightarrow> string \<Rightarrow> image list \<Rightarrow> int list \<Rightarrow> unit m" where
  "np_savez env p images labels = proc env (Savez p images labels) (fs_write p)"

definition shutil_rmtree :: "env \<Rightarrow> string \<Rightarrow> unit m" where
  "shutil_rmtree env p = proc env (Rmtree p) (fs_rmtree p)"

definition upload_data :: "env \<Rightarrow> session \<Rightarrow> string \<Rightarrow> string \<Rightarrow> string m" where
  "upload_data env sess path key_prefix =
     ext (UploadData sess path key_prefix) (\<lambda>t. env_upload_data env t sess path key_prefix) id"

text \<open>A \<^verbatim>\<open>!command\<close> line: IPython runs it and goes on whatever its exit status.\<close>

definition shell :: "env \<Rightarrow> string \<Rightarrow> int m" where
  "shell env cmd = ext (Shell cmd) (\<lambda>t. Inr (env_shell env t cmd)) id"

definition print :: "string \<Rightarrow> pv list \<Rightarrow> unit m" where
  "print s args = ext (Print s args) (\<lambda>t. Inr ()) id"


subsection \<open>Pure operations of Python and numpy used by the cells\<close>

text \<open>
  \<^verbatim>\<open>s.replace(old, new)\<close>: every occurrence of \<open>old\<close>, found from left to right without
  overlap, is replaced; an empty \<open>old\<close> matches before every character and at the end.
\<close>

function replace_scan :: "string \<Rightarrow> string \<Rightarrow> string \<Rightarrow> string" where
  "replace_scan old new [] = []"
| "replace_scan old new (c # cs) =
     (if old \<noteq> [] \<and> prefix old (c # cs)
      then new @ replace_scan old new (drop (length old) (c # cs))
      else c # replace_scan old new cs)"
  by pat_completeness auto
termination
  by (relation "measure (\<lambda>(old, new, s). length s)") (auto simp: neq_Nil_conv)

definition py_replace :: "string \<Rightarrow> string \<Rightarrow> string \<Rightarrow> string" where
  "py_replace s old new =
     (if old = [] then new @ concat (map (\<lambda>c. c # new) s) else replace_scan old new s)"

text \<open>\<^verbatim>\<open>d[k]\<close> on a dictionary.\<close>

definition dict_get :: "(string \<times> 'v) list \<Rightarrow> string \<Rightarrow> exn + 'v" where
  "dict_get d k = (case map_of d k of None \<Rightarrow> Inl (KeyError k) | Some v \<Rightarrow> Inr v)"

text \<open>\<^verbatim>\<open>xs[i]\<close> for a non-negative index.\<close>

definition py_get :: "'a list \<Rightarrow> nat \<Rightarrow> exn + 'a" where
  "py_get xs i = (if i < length xs then Inr (xs ! i) else Inl IndexError)"

text \<open>\<^verbatim>\<open>xs[indices]\<close>: numpy's selection of the rows at the given non-negative indices.\<close>

definition take_idx :: "'a list \<Rightarrow> nat list \<Rightarrow> exn + 'a list" where
  "take_idx xs idx =
     (if list_all (\<lambda>i. i < length xs) idx then Inr (map (\<lambda>i. xs ! i) idx) else Inl IndexError)"

text \<open>\<^verbatim>\<open>range(m)\<close>: empty when \<open>m\<close> is not positive.\<close>

definition py_range :: "int \<Rightarrow> nat list" where
  "py_range m = [0..<nat m]"

text \<open>\<^verbatim>\<open>x.reshape(r, c)\<close> of a flat array.\<close>

primrec rows_of :: "nat \<Rightarrow> nat \<Rightarrow> 'a list \<Rightarrow> 'a list list" where
  "rows_of 0 c xs = []"
| "rows_of (Suc r) c xs = take c xs # rows_of r c (drop c xs)"

definition reshape :: "nat \<Rightarrow> nat \<Rightarrow> 'a list \<Rightarrow> exn + 'a list list" where
  "reshape r c xs = (if length xs = r * c then Inr (rows_of r c xs) else Inl ValueError)"

text \<open>
  \<^verbatim>\<open>argmax\<close> of a row of floats, as numpy scans it: a NaN in the first place is the
  answer; otherwise the scan keeps the best value and its index, moves on every value
  that is not below or equal to the best (so on a strictly greater value and on NaN), and
  stops at the first NaN.
\<close>

fun argmax_from :: "flt \<Rightarrow> nat \<Rightarrow> nat \<Rightarrow> flt list \<Rightarrow> nat" where
  "argmax_from mp max_ind i [] = max_ind"
| "argmax_from mp max_ind i (x # xs) =
     (if \<not> flt_le x mp
      then (if is_nan x then i else argmax_from x i (Suc i) xs)
      else argmax_from mp max_ind (Suc i) xs)"

definition argmax_row :: "flt list \<Rightarrow> nat" where
  "argmax_row r = (if is_nan (hd r) then 0 else argmax_from (hd r) 0 1 (tl r))"

text \<open>\<^verbatim>\<open>a.argmax(axis=1)\<close>: ValueError when the rows are empty.\<close>

definition argmax_axis1 :: "arr2 \<Rightarrow> exn + nat list" where
  "argmax_axis1 a =
     (if ncols a = 0 \<or> [] \<in> set (rows a) then Inl ValueError
      else Inr (map argmax_row (rows a)))"

text \<open>
  \<^verbatim>\<open>random.sample(population, k)\<close> is a function of Python's library. Its contract is a
  selection of \<open>k\<close> places of the population without replacement, and ValueError when
  \<open>k\<close> exceeds the size of the population. The model draws each place from the
  environment's random numbers and removes it from the pool.
\<close>

primrec sample_from :: "(nat \<Rightarrow> nat) \<Rightarrow> nat \<Rightarrow> 'a list \<Rightarrow> 'a list" where
  "sample_from draw 0 pool = []"
| "sample_from draw (Suc k) pool =
     (if pool = [] then []
      else (let j = draw k mod length pool
            in pool ! j # sample_from draw k (take j pool @ drop (Suc j) pool)))"

definition random_sample :: "(nat \<Rightarrow> nat) \<Rightarrow> 'a list \<Rightarrow> nat \<Rightarrow> exn + 'a list" where
  "random_sample draw population k =
     (if length population < k then Inl ValueError else Inr (sample_from draw k population))"

definition random_sample_m :: "env \<Rightarrow> 'a list \<Rightarrow> nat \<Rightarrow> 'a list m" where
  "random_sample_m env population k w =
     (random_sample (env_random env (length (trace w))) population k, w)"

subsection \<open>The code cells\<close>

text \<open>Cell 1: the session and the role.\<close>

definition cell_1 :: "env \<Rightarrow> (session \<times> string) m" where
  "cell_1 env =
     bnd (ext Session (env_Session env) id) (\<lambda>sagemaker_session.
     bnd (ext GetExecutionRole (env_get_execution_role env) id) (\<lambda>role.
     ret (sagemaker_session, role)))"

text \<open>Cell 3: \<^verbatim>\<open>!/bin/bash ./setup.sh\<close>.\<close>

definition cell_3 :: "env \<Rightarrow> int m" where
  "cell_3 env = shell env ''/bin/bash ./setup.sh''"

text \<open>Cell 5: \<^verbatim>\<open>train, test = chainer.datasets.get_mnist()\<close>.\<close>

definition cell_5 :: "env \<Rightarrow> (dataset \<times> dataset) m" where
  "cell_5 env = ext GetMnist (env_get_mnist env) id"

text \<open>Cell 7: the arrays are split off, saved under /tmp/data and uploaded.\<close>

definition staging_body ::
  "env \<Rightarrow> session \<Rightarrow> image list \<Rightarrow> int list \<Rightarrow> image list \<Rightarrow> int list \<Rightarrow> (string \<times> string) m" where
  "staging_body env sagemaker_session train_images train_labels test_images test_labels =
     bnd (os_makedirs env ''/tmp/data/train'') (\<lambda>_.
     bnd (os_makedirs env ''/tmp/data/test'') (\<lambda>_.
     bnd (np_savez env ''/tmp/data/train/train.npz'' train_images train_labels) (\<lambda>_.
     bnd (np_savez env ''/tmp/data/test/test.npz'' test_images test_labels) (\<lambda>_.
     bnd (upload_data env sagemaker_session (os_path_join ''/tmp/data'' ''train'')
            ''notebook/chainer/mnist'') (\<lambda>train_input.
     bnd (upload_data env sagemaker_session (os_path_join ''/tmp/data'' ''test'')
            ''notebook/chainer/mnist'') (\<lambda>test_input.
     ret (train_input, test_input)))))))"

definition cell_7 ::
  "env \<Rightarrow> session \<Rightarrow> dataset \<Rightarrow> dataset \<Rightarrow> (image list \<times> int list \<times> string \<times> string) m" where
  "cell_7 env sagemaker_session train test =
     (let train_images = map fst train;
          train_labels = map snd train;
          test_images = map fst test;
          test_labels = map snd test
      in bnd (try_finally
               (staging_body env sagemaker_session train_images train_labels
                  test_images test_labels)
               (shutil_rmtree env ''/tmp/data''))
           (\<lambda>(train_input, test_input).
              ret (test_images, test_labels, train_input, test_input)))"

text \<open>Cell 9: \<^verbatim>\<open>!pygmentize 'chainer_mnist_single_machine.py'\<close>.\<close>

definition cell_9 :: "env \<Rightarrow> int m" where
  "cell_9 env =
     shell env (''pygmentize '' @ [CHR 0x27] @ ''chainer_mnist_single_machine.py'' @ [CHR 0x27])"

text \<open>Cell 11: the instance type and the estimator.\<close>

definition cell_11 :: "env \<Rightarrow> string \<Rightarrow> (string \<times> estimator) m" where
  "cell_11 env role0 =
     (let instance_type = ''local''
      in bnd (ext (SubprocessCall ''nvidia-smi'')
                (\<lambda>t. env_subprocess_call env t ''nvidia-smi'') id) (\<lambda>rc.
         let instance_type = (if rc = 0 then ''local_gpu'' else instance_type)
         in bnd (print (''Instance type = '' @ instance_type) []) (\<lambda>_.
            let chainer_estimator =
                  \<lparr>entry_point = ''chainer_mnist_single_machine.py'', role = role0,
                   train_instance_count = 1, train_instance_type = instance_type,
                   hyperparameters = [(''epochs'', 3), (''batch_size'', 128)]\<rparr>
            in bnd (proc env (Chainer chainer_estimator) id) (\<lambda>_.
               ret (instance_type, chainer_estimator)))))"

text \<open>Cell 13: \<^verbatim>\<open>chainer_estimator.fit({'train': train_input, 'test': test_input})\<close>.\<close>

definition cell_13 :: "env \<Rightarrow> estimator \<Rightarrow> string \<Rightarrow> string \<Rightarrow> unit m" where
  "cell_13 env chainer_estimator train_input test_input =
     proc env (Fit chainer_estimator [(''train'', train_input), (''test'', test_input)]) id"

text \<open>Cell 15: the output directory, the job description, the download of the artifacts.\<close>

definition make_output_dir :: "env \<Rightarrow> unit m" where
  "make_output_dir env =
     try_except_OSError (os_makedirs env ''output/single_machine_mnist'') (ret ())"

definition fetch_artifacts :: "env \<Rightarrow> session \<Rightarrow> estimator \<Rightarrow> string m" where
  "fetch_artifacts env sagemaker_session chainer_estimator =
     bnd (ext (LatestTrainingJobName chainer_estimator)
            (\<lambda>t. env_latest_training_job_name env t chainer_estimator) id)
       (\<lambda>chainer_training_job.
     bnd (ext (DescribeTrainingJob chainer_training_job)
            (\<lambda>t. env_describe_training_job env t chainer_training_job) id) (\<lambda>desc.
     bnd (lift (dict_get desc ''ModelArtifacts'')) (\<lambda>artifacts.
     bnd (lift (dict_get artifacts ''S3ModelArtifacts'')) (\<lambda>uri.
     let output_data = py_replace uri ''model'' ''output''
     in bnd (shell env (''aws --region '' @ region_name sagemaker_session @ '' s3 cp ''
                @ output_data @ '' output/single_machine_mnist/output.tar'')) (\<lambda>_.
        bnd (shell env
               ''tar -xzvf output/single_machine_mnist/output.tar -C output/single_machine_mnist'')
          (\<lambda>_.
        ret output_data))))))"

definition cell_15 :: "env \<Rightarrow> session \<Rightarrow> estimator \<Rightarrow> string m" where
  "cell_15 env sagemaker_session chainer_estimator =
     bnd (make_output_dir env) (\<lambda>_. fetch_artifacts env sagemaker_session chainer_estimator)"

text \<open>Cell 17: the two plots are loaded and displayed.\<close>

definition cell_17 :: "env \<Rightarrow> unit m" where
  "cell_17 env =
     bnd (proc env (ImageNew ''output/single_machine_mnist/accuracy.png'' 800 800) id) (\<lambda>_.
     bnd (proc env (ImageNew ''output/single_machine_mnist/loss.png'' 800 800) id) (\<lambda>_.
     proc env (Display [''output/single_machine_mnist/accuracy.png'',
                        ''output/single_machine_mnist/loss.png'']) id))"

text \<open>Cell 19: \<^verbatim>\<open>predictor = chainer_estimator.deploy(...)\<close>.\<close>

definition cell_19 :: "env \<Rightarrow> estimator \<Rightarrow> string \<Rightarrow> predictor m" where
  "cell_19 env chainer_estimator instance_type =
     ext (Deploy chainer_estimator 1 instance_type)
       (\<lambda>t. env_deploy env t chainer_estimator 1 instance_type) id"

text \<open>Cell 21: five test images are sampled and shown.\<close>

definition num_samples :: nat where
  "num_samples = 5"

definition sample_indices :: "env \<Rightarrow> image list \<Rightarrow> nat list m" where
  "sample_indices env test_images =
     random_sample_m env (py_range (int (length test_images) - 1)) num_samples"

definition show_sample :: "env \<Rightarrow> image list \<Rightarrow> int list \<Rightarrow> nat \<Rightarrow> unit m" where
  "show_sample env images labels i =
     bnd (proc env (Subplot 1 num_samples (i + 1)) id) (\<lambda>_.
     bnd (lift (py_get images i)) (\<lambda>img.
     bnd (lift (reshape 28 28 img)) (\<lambda>img2.
     bnd (proc env (Imshow img2 ''gray'') id) (\<lambda>_.
     bnd (lift (py_get labels i)) (\<lambda>l.
     bnd (proc env (Title l) id) (\<lambda>_.
     proc env (Axis ''off'') id))))))"

definition cell_21 ::
  "env \<Rightarrow> image list \<Rightarrow> int list \<Rightarrow> (nat list \<times> image list \<times> int list) m" where
  "cell_21 env test_images test_labels =
     bnd (sample_indices env test_images) (\<lambda>indices.
     bnd (lift (take_idx test_images indices)) (\<lambda>images.
     bnd (lift (take_idx test_labels indices)) (\<lambda>labels.
     bnd (for_each (py_range (int num_samples)) (show_sample env images labels)) (\<lambda>_.
     ret (indices, images, labels)))))"

text \<open>Cell 23: the prediction for the sampled images.\<close>

definition cell_23 :: "env \<Rightarrow> predictor \<Rightarrow> image list \<Rightarrow> (arr2 \<times> nat list) m" where
  "cell_23 env predictor0 images =
     bnd (ext (Predict predictor0 images) (\<lambda>t. env_predict env t predictor0 images) id)
       (\<lambda>prediction.
     bnd (lift (argmax_axis1 prediction)) (\<lambda>predicted_label.
     bnd (print ''The predicted labels are: {}'' [PNats predicted_label]) (\<lambda>_.
     ret (prediction, predicted_label))))"

text \<open>Cell 25: the drawing widget, \<^verbatim>\<open>HTML(open("input.html").read())\<close>.\<close>

definition cell_25 :: "env \<Rightarrow> unit m" where
  "cell_25 env =
     bnd (ext (OpenRead ''input.html'') (\<lambda>t. env_read env t ''input.html'') id) (\<lambda>s.
     proc env (HTMLNew s) id)"

text \<open>
  Cell 27: the prediction for the drawing. The widget stores the pixels in the variable
  \<^verbatim>\<open>data\<close>; the name is undefined when nothing was drawn. The conversion
  \<^verbatim>\<open>np.array(data, dtype=np.float32)\<close> is numpy's: what it rounds the data to, or the
  exception it raises, is given by the environment.
\<close>

definition cell_27 :: "env \<Rightarrow> predictor \<Rightarrow> (arr2 \<times> nat) m" where
  "cell_27 env predictor0 =
     bnd (case env_data env of None \<Rightarrow> raise (NameError ''data'') | Some d \<Rightarrow> ret d) (\<lambda>data.
     bnd (lift (env_np_array_float32 env data)) (\<lambda>image.
     bnd (ext (Predict predictor0 image) (\<lambda>t. env_predict env t predictor0 image) id)
       (\<lambda>prediction.
     bnd (lift (argmax_axis1 prediction)) (\<lambda>labels.
     bnd (lift (py_get labels 0)) (\<lambda>predicted_label.
     bnd (print ''What you wrote is: {}'' [PNat predicted_label]) (\<lambda>_.
     ret (prediction, predicted_label)))))))"

text \<open>Cell 29: \<^verbatim>\<open>chainer_estimator.delete_endpoint()\<close>.\<close>

definition cell_29 :: "env \<Rightarrow> estimator \<Rightarrow> unit m" where
  "cell_29 env chainer_estimator = proc env (DeleteEndpoint chainer_estimator) id"

subsection \<open>The notebook, run from the first cell to the last\<close>

record summary =
  s_instance_type :: string
  s_output_data :: string
  s_indices :: "nat list"
  s_batch_labels :: "nat list"
  s_drawn_label :: nat

definition run_all :: "env \<Rightarrow> summary m" where
  "run_all env =
     bnd (cell_1 env) (\<lambda>(sagemaker_session, role0).
     bnd (cell_3 env) (\<lambda>_.
     bnd (cell_5 env) (\<lambda>(train, test).
     bnd (cell_7 env sagemaker_session train test)
       (\<lambda>(test_images, test_labels, train_input, test_input).
     bnd (cell_9 env) (\<lambda>_.
     bnd (cell_11 env role0) (\<lambda>(instance_type, chainer_estimator).
     bnd (cell_13 env chainer_estimator train_input test_input) (\<lambda>_.
     bnd (cell_15 env sagemaker_session chainer_estimator) (\<lambda>output_data.
     bnd (cell_17 env) (\<lambda>_.
     bnd (cell_19 env chainer_estimator instance_type) (\<lambda>predictor0.
     bnd (cell_21 env test_images test_labels) (\<lambda>(indices, images, labels).
     bnd (cell_23 env predictor0 images) (\<lambda>(prediction, batch_labels).
     bnd (cell_25 env) (\<lambda>_.
     bnd (cell_27 env predictor0) (\<lambda>(prediction', drawn_label).
     bnd (cell_29 env chainer_estimator) (\<lambda>_.
     ret \<lparr>s_instance_type = instance_type, s_output_data = output_data,
          s_indices = indices, s_batch_labels = batch_labels,
          s_drawn_label = drawn_label\<rparr>)))))))))))))))"

definition w0 :: world where
  "w0 = \<lparr>trace = [], fs = {}\<rparr>"


subsection \<open>Reading the log\<close>

text \<open>The events a run adds to the log are those behind the events that were there.\<close>

fun is_rmtree :: "call \<Rightarrow> bool" where
  "is_rmtree (Rmtree p) = True"
| "is_rmtree _ = False"

text \<open>The calls the notebook makes to the services outside.\<close>

fun service_call :: "call \<Rightarrow> bool" where
  "service_call (UploadData s p k) = True"
| "service_call (Fit e i) = True"
| "service_call (Deploy e n t) = True"
| "service_call (Predict p x) = True"
| "service_call (DeleteEndpoint e) = True"
| "service_call (DescribeTrainingJob j) = True"
| "service_call _ = False"

text \<open>
  An exception is suppressed when it is an OSError raised by the creation of the output
  directory; an event is quiet when its call returned or its exception is suppressed.
\<close>

fun suppressed :: "call \<Rightarrow> exn \<Rightarrow> bool" where
  "suppressed (Makedirs p) e = (p = ''output/single_machine_mnist'' \<and> is_OSError e)"
| "suppressed _ e = False"

definition quiet_ev :: "event \<Rightarrow> bool" where
  "quiet_ev ev = (case snd ev of None \<Rightarrow> True | Some e \<Rightarrow> suppressed (fst ev) e)"

definition quiet :: "event list \<Rightarrow> bool" where
  "quiet evs = list_all quiet_ev evs"

primrec last_raised :: "exn \<Rightarrow> event list \<Rightarrow> exn" where
  "last_raised x [] = x"
| "last_raised x (ev # evs) = last_raised (case snd ev of None \<Rightarrow> x | Some y \<Rightarrow> y) evs"

text \<open>
  A log ends in the exception \<open>e\<close> properly when the first exception that is not
  suppressed is followed by nothing but the cleanup, and \<open>e\<close> is the last exception raised.
\<close>

primrec propagated :: "event list \<Rightarrow> exn \<Rightarrow> bool" where
  "propagated [] e = True"
| "propagated (ev # evs) e =
     (if quiet_ev ev then propagated evs e
      else list_all (\<lambda>ev'. is_rmtree (fst ev')) evs \<and> e = last_raised (the (snd ev)) evs)"

definition sound :: "'a m \<Rightarrow> bool" where
  "sound f \<longleftrightarrow> (\<forall>w r w'. f w = (r, w') \<longrightarrow>
     (\<exists>evs. trace w' = trace w @ evs \<and>
        (case r of Inr _ \<Rightarrow> quiet evs | Inl e \<Rightarrow> propagated evs e)))"

subsection \<open>Call sequences\<close>

text \<open>The kind of a call forgets its arguments; of a shell line it keeps the program.\<close>

datatype kind =
    K_Session | K_GetExecutionRole | K_Shell string | K_GetMnist | K_Makedirs | K_Savez
  | K_UploadData | K_Rmtree | K_SubprocessCall | K_Print | K_Chainer | K_Fit
  | K_LatestTrainingJobName | K_DescribeTrainingJob | K_ImageNew | K_Display | K_Deploy
  | K_Subplot | K_Imshow | K_Title | K_Axis | K_Predict | K_OpenRead | K_HTMLNew
  | K_DeleteEndpoint

fun kind_of :: "call \<Rightarrow> kind" where
  "kind_of Session = K_Session"
| "kind_of GetExecutionRole = K_GetExecutionRole"
| "kind_of (Shell cmd) = K_Shell (takeWhile (\<lambda>c. c \<noteq> CHR '' '') cmd)"
| "kind_of GetMnist = K_GetMnist"
| "kind_of (Makedirs p) = K_Makedirs"
| "kind_of (Savez p a b) = K_Savez"
| "kind_of (UploadData s p k) = K_UploadData"
| "kind_of (Rmtree p) = K_Rmtree"
| "kind_of (SubprocessCall p) = K_SubprocessCall"
| "kind_of (Print s a) = K_Print"
| "kind_of (Chainer e) = K_Chainer"
| "kind_of (Fit e i) = K_Fit"
| "kind_of (LatestTrainingJobName e) = K_LatestTrainingJobName"
| "kind_of (DescribeTrainingJob j) = K_DescribeTrainingJob"
| "kind_of (ImageNew f a b) = K_ImageNew"
| "kind_of (Display xs) = K_Display"
| "kind_of (Deploy e n t) = K_Deploy"
| "kind_of (Subplot a b c) = K_Subplot"
| "kind_of (Imshow i c) = K_Imshow"
| "kind_of (Title l) = K_Title"
| "kind_of (Axis a) = K_Axis"
| "kind_of (Predict p x) = K_Predict"
| "kind_of (OpenRead f) = K_OpenRead"
| "kind_of (HTMLNew s) = K_HTMLNew"
| "kind_of (DeleteEndpoint e) = K_DeleteEndpoint"

text \<open>The shape of an event: the kind of the call and whether it raised.\<close>

definition sh :: "event \<Rightarrow> kind \<times> bool" where
  "sh ev = (kind_of (fst ev), snd ev \<noteq> None)"

definition kinds :: "event list \<Rightarrow> kind list" where
  "kinds evs = map (\<lambda>ev. kind_of (fst ev)) evs"

text \<open>
  \<open>only_after P Q\<close>: every element with \<open>Q\<close> comes after some element with \<open>P\<close>.
\<close>

primrec only_after :: "('a \<Rightarrow> bool) \<Rightarrow> ('a \<Rightarrow> bool) \<Rightarrow> bool \<Rightarrow> 'a list \<Rightarrow> bool" where
  "only_after P Q seen [] = True"
| "only_after P Q seen (x # xs) = ((Q x \<longrightarrow> seen) \<and> only_after P Q (seen \<or> P x) xs)"

definition returned :: "kind \<Rightarrow> kind \<times> bool \<Rightarrow> bool" where
  "returned k s = (fst s = k \<and> \<not> snd s)"

definition called :: "kind list \<Rightarrow> kind \<times> bool \<Rightarrow> bool" where
  "called ks s = (fst s \<in> set ks)"

definition follows :: "kind \<Rightarrow> kind list \<Rightarrow> event list \<Rightarrow> bool" where
  "follows k ks evs = only_after (returned k) (called ks) False (map sh evs)"

text \<open>A call of kind \<open>k\<close>, when there is one, is the last event of the log.\<close>

definition final_op :: "kind \<Rightarrow> event list \<Rightarrow> bool" where
  "final_op k evs = (\<not> list_ex (called [k]) (butlast (map sh evs)))"

definition returned_count :: "kind \<Rightarrow> event list \<Rightarrow> nat" where
  "returned_count k evs = length (filter (returned k) (map sh evs))"

definition call_count :: "kind \<Rightarrow> event list \<Rightarrow> nat" where
  "call_count k evs = length (filter (called [k]) (map sh evs))"

definition is_called :: "kind \<Rightarrow> event list \<Rightarrow> bool" where
  "is_called k evs = list_ex (called [k]) (map sh evs)"

text \<open>The calls of a complete run, in the order of the notebook.\<close>

definition notebook_calls :: "kind list" where
  "notebook_calls =
     [K_Session, K_GetExecutionRole, K_Shell ''/bin/bash'', K_GetMnist,
      K_Makedirs, K_Makedirs, K_Savez, K_Savez, K_UploadData, K_UploadData, K_Rmtree,
      K_Shell ''pygmentize'', K_SubprocessCall, K_Print, K_Chainer, K_Fit,
      K_Makedirs, K_LatestTrainingJobName, K_DescribeTrainingJob, K_Shell ''aws'',
      K_Shell ''tar'', K_ImageNew, K_ImageNew, K_Display, K_Deploy,
      K_Subplot, K_Imshow, K_Title, K_Axis, K_Subplot, K_Imshow, K_Title, K_Axis,
      K_Subplot, K_Imshow, K_Title, K_Axis, K_Subplot, K_Imshow, K_Title, K_Axis,
      K_Subplot, K_Imshow, K_Title, K_Axis,
      K_Predict, K_Print, K_OpenRead, K_HTMLNew, K_Predict, K_Print, K_DeleteEndpoint]"

text \<open>The order of the steps, read off the shapes of the events of a run.\<close>

definition shown :: "kind list" where
  "shown = [K_Shell ''aws'', K_Shell ''tar'', K_ImageNew, K_Display, K_Subplot, K_Imshow,
            K_Title, K_Axis, K_HTMLNew]"

definition ordered :: "(kind \<times> bool) list \<Rightarrow> bool" where
  "ordered s \<longleftrightarrow>
     only_after (returned K_GetMnist) (called [K_Savez, K_UploadData]) False s
   \<and> only_after (returned K_Chainer) (called [K_Fit]) False s
   \<and> only_after (returned K_Fit) (called shown) False s
   \<and> only_after (returned K_Fit) (called [K_Deploy]) False s
   \<and> only_after (returned K_Deploy) (called [K_Predict]) False s
   \<and> \<not> list_ex (called [K_DeleteEndpoint]) (butlast s)
   \<and> (list_ex (called [K_DeleteEndpoint]) s \<longrightarrow> length (filter (returned K_Predict) s) = 2)"

text \<open>
  The possible shapes of what a computation adds to the log, each with the mark of a
  run that ended in an exception, and the shapes of the cells built from them.
\<close>

type_synonym shape = "(kind \<times> bool) list \<times> bool"

definition covers :: "'a m \<Rightarrow> shape list \<Rightarrow> bool" where
  "covers f S \<longleftrightarrow> (\<forall>w r w'. f w = (r, w') \<longrightarrow>
     (\<exists>evs. trace w' = trace w @ evs \<and> (map sh evs, isl r) \<in> set S))"

definition one :: "kind \<Rightarrow> shape list" where
  "one k = [([(k, False)], False), ([(k, True)], True)]"

definition total :: "kind \<Rightarrow> shape list" where
  "total k = [([(k, False)], False)]"

definition pure :: "shape list" where
  "pure = [([], False), ([], True)]"

definition seqS :: "shape list \<Rightarrow> shape list \<Rightarrow> shape list" where
  "seqS S1 S2 =
     filter snd S1
     @ concat (map (\<lambda>(a, f). map (\<lambda>(b, g). (a @ b, g)) S2) (filter (\<lambda>s. \<not> snd s) S1))"

definition finS :: "shape list \<Rightarrow> shape list \<Rightarrow> shape list" where
  "finS S1 S2 = concat (map (\<lambda>(a, f). map (\<lambda>(b, g). (a @ b, f \<or> g)) S2) S1)"

definition caughtS :: "shape list \<Rightarrow> shape list" where
  "caughtS S = S @ map (\<lambda>(a, f). (a, False)) S"

primrec seqs :: "shape list list \<Rightarrow> shape list" where
  "seqs [] = [([], False)]"
| "seqs (S # Ss) = seqS S (seqs Ss)"

declare seqs.simps [simp del]

definition sh_cell_1 :: "shape list" where
  "sh_cell_1 = seqs [one K_Session, one K_GetExecutionRole]"

definition sh_staging_body :: "shape list" where
  "sh_staging_body = seqs [one K_Makedirs, one K_Makedirs, one K_Savez, one K_Savez,
                           one K_UploadData, one K_UploadData]"

definition sh_cell_7 :: "shape list" where
  "sh_cell_7 = seqs [finS sh_staging_body (one K_Rmtree)]"

definition sh_cell_11 :: "shape list" where
  "sh_cell_11 = seqs [one K_SubprocessCall, total K_Print, one K_Chainer]"

definition sh_fetch_artifacts :: "shape list" where
  "sh_fetch_artifacts = seqs [one K_LatestTrainingJobName, one K_DescribeTrainingJob,
      pure, pure, total (K_Shell ''aws''), total (K_Shell ''tar'')]"

definition sh_cell_15 :: "shape list" where
  "sh_cell_15 = seqs [caughtS (one K_Makedirs), sh_fetch_artifacts]"

definition sh_cell_17 :: "shape list" where
  "sh_cell_17 = seqs [one K_ImageNew, one K_ImageNew, one K_Display]"

definition sh_show_sample :: "shape list" where
  "sh_show_sample =
     seqs [one K_Subplot, pure, pure, one K_Imshow, pure, one K_Title, one K_Axis]"

definition sh_cell_21 :: "shape list" where
  "sh_cell_21 = seqs [pure, pure, pure, seqs (replicate 5 sh_show_sample)]"

definition sh_cell_23 :: "shape list" where
  "sh_cell_23 = seqs [one K_Predict, pure, total K_Print]"

definition sh_cell_25 :: "shape list" where
  "sh_cell_25 = seqs [one K_OpenRead, one K_HTMLNew]"

definition sh_cell_27 :: "shape list" where
  "sh_cell_27 = seqs [pure, pure, one K_Predict, pure, pure, total K_Print]"

definition sh_run_all :: "shape list" where
  "sh_run_all = seqs [sh_cell_1, total (K_Shell ''/bin/bash''), one K_GetMnist, sh_cell_7,
     total (K_Shell ''pygmentize''), sh_cell_11, one K_Fit, sh_cell_15, sh_cell_17,
     one K_Deploy, sh_cell_21, sh_cell_23, sh_cell_25, sh_cell_27, one K_DeleteEndpoint]"

text \<open>
  The place \<open>j\<close> is that of the maximum of a row as numpy understands it: the first NaN
  when the row has one, otherwise the first of the greatest values.
\<close>

definition first_max_at :: "flt list \<Rightarrow> nat \<Rightarrow> bool" where
  "first_max_at r j \<longleftrightarrow>
     j < length r \<and>
     (if list_ex is_nan r
      then is_nan (r ! j) \<and> \<not> list_ex is_nan (take j r)
      else list_all (\<lambda>x. flt_le x (r ! j)) r \<and> list_all (\<lambda>x. flt_less x (r ! j)) (take j r))"

subsection \<open>Concrete environments\<close>

definition img0 :: image where
  "img0 = replicate 784 (Fin 0)"

definition train0 :: dataset where
  "train0 = [(img0, 5), (img0, 0)]"

definition test0 :: dataset where
  "test0 = [(img0, 7), (img0, 2), (img0, 1), (img0, 0), (img0, 4), (img0, 1), (img0, 4)]"

definition sess0 :: session where
  "sess0 = \<lparr>region_name = ''us-west-2''\<rparr>"

definition est0 :: estimator where
  "est0 = \<lparr>entry_point = ''chainer_mnist_single_machine.py'', role = ''role'',
           train_instance_count = 1, train_instance_type = ''local'',
           hyperparameters = [(''epochs'', 3), (''batch_size'', 128)]\<rparr>"

definition desc0 :: desc where
  "desc0 = [(''ModelArtifacts'',
             [(''S3ModelArtifacts'', ''s3://model-bucket/job/output/model.tar.gz'')])]"

text \<open>Every call returns; there is no GPU (nvidia-smi exits with 1).\<close>

definition env_ok :: env where
  "env_ok = \<lparr>
     env_Session = (\<lambda>t. Inr sess0),
     env_get_execution_role = (\<lambda>t. Inr ''role''),
     env_shell = (\<lambda>t cmd. 0),
     env_get_mnist = (\<lambda>t. Inr (train0, test0)),
     env_proc = (\<lambda>t c. None),
     env_upload_data = (\<lambda>t s path key_prefix. Inr (''s3://bucket/'' @ key_prefix)),
     env_subprocess_call = (\<lambda>t cmd. Inr 1),
     env_latest_training_job_name = (\<lambda>t e. Inr ''job''),
     env_describe_training_job = (\<lambda>t j. Inr desc0),
     env_deploy = (\<lambda>t e n i. Inr ''endpoint''),
     env_random = (\<lambda>t i. i),
     env_predict =
       (\<lambda>t p x. Inr \<lparr>ncols = 3, rows = map (\<lambda>_. [Fin 0, Fin 1, Fin (1 / 2)]) x\<rparr>),
     env_read = (\<lambda>t f. Inr ''<html></html>''),
     env_data = Some (PyList [PyList (replicate 784 (PyNum 0))]),
     env_np_array_float32 = (\<lambda>d. Inr [img0])\<rparr>"

text \<open>The same with a GPU.\<close>

definition env_gpu :: env where
  "env_gpu = env_ok\<lparr>env_subprocess_call := (\<lambda>t cmd. Inr 0)\<rparr>"

text \<open>Every upload raises.\<close>

definition env_upload_fails :: env where
  "env_upload_fails =
     env_ok\<lparr>env_upload_data := (\<lambda>t s path key_prefix. Inl (OtherError ''upload''))\<rparr>"

text \<open>The output directory cannot be created for lack of permission.\<close>

definition env_no_permission :: env where
  "env_no_permission =
     env_ok\<lparr>env_proc := (\<lambda>t c. case c of Makedirs p \<Rightarrow>
        (if p = ''output/single_machine_mnist'' then Some PermissionError else None)
       | _ \<Rightarrow> None)\<rparr>"

text \<open>The endpoint answers with a NaN in every row.\<close>

definition env_nan :: env where
  "env_nan = env_ok\<lparr>env_predict :=
     (\<lambda>t p x. Inr \<lparr>ncols = 3, rows = map (\<lambda>_. [Fin 0, NaN, Fin 1]) x\<rparr>)\<rparr>"

text \<open>The deployment raises.\<close>

definition env_deploy_fails :: env where
  "env_deploy_fails = env_ok\<lparr>env_deploy := (\<lambda>t e n i. Inl (OtherError ''deploy''))\<rparr>"

section \<open>Properties\<close>

subsection \<open>Exceptions reach the user\<close>

lemma quiet_append: "quiet (a @ b) = (quiet a \<and> quiet b)"
  by (simp add: quiet_def)

lemma propagated_quiet_append: "quiet a \<Longrightarrow> propagated (a @ b) e = propagated b e"
  by (induction a) (auto simp: quiet_def)

lemma last_raised_append:
  "last_raised x (a @ b) = last_raised (last_raised x a) b"
  by (induction a arbitrary: x) auto

lemma propagated_rmtree_None:
  "propagated a e \<Longrightarrow> propagated (a @ [(Rmtree d, None)]) e"
  by (induction a) (auto simp: quiet_ev_def last_raised_append)

lemma propagated_rmtree_Some:
  "propagated a e \<Longrightarrow> propagated (a @ [(Rmtree d, Some y)]) y"
  by (induction a) (auto simp: quiet_ev_def last_raised_append)

lemma quiet_propagated_rmtree_Some:
  "quiet a \<Longrightarrow> propagated (a @ [(Rmtree d, Some y)]) y"
  by (induction a) (auto simp: quiet_ev_def quiet_def)

lemma sound_ret: "sound (ret x)"
  by (simp add: sound_def ret_def quiet_def)

lemma sound_raise: "sound (raise e)"
  by (simp add: sound_def raise_def)

lemma sound_lift: "sound (lift r)"
  by (auto simp: sound_def lift_def quiet_def split: sum.splits)

lemma sound_random_sample_m: "sound (random_sample_m env pop k)"
  by (auto simp: sound_def random_sample_m_def quiet_def split: sum.splits)

lemma sound_ext: "sound (ext c orc eff)"
  by (auto simp: sound_def ext_def quiet_def quiet_ev_def split: sum.splits)

lemma sound_proc: "sound (proc env c eff)"
  by (simp add: proc_def sound_ext)

lemma sound_bnd:
  assumes "sound f" and "\<And>x. sound (g x)"
  shows "sound (bnd f g)"
  unfolding sound_def
proof (intro allI impI)
  fix w r w'
  assume run: "bnd f g w = (r, w')"
  obtain r1 w1 where f: "f w = (r1, w1)" by (cases "f w")
  from assms(1) f obtain evs1 where
    e1: "trace w1 = trace w @ evs1"
        "case r1 of Inr _ \<Rightarrow> quiet evs1 | Inl e \<Rightarrow> propagated evs1 e"
    unfolding sound_def by blast
  show "\<exists>evs. trace w' = trace w @ evs \<and>
          (case r of Inr _ \<Rightarrow> quiet evs | Inl e \<Rightarrow> propagated evs e)"
  proof (cases r1)
    case (Inl e)
    with run f have "r = Inl e" "w' = w1" by (auto simp: bnd_def)
    with e1 Inl show ?thesis by auto
  next
    case (Inr x)
    with run f have g: "g x w1 = (r, w')" by (auto simp: bnd_def)
    from assms(2)[of x] g obtain evs2 where
      e2: "trace w' = trace w1 @ evs2"
          "case r of Inr _ \<Rightarrow> quiet evs2 | Inl e \<Rightarrow> propagated evs2 e"
      unfolding sound_def by blast
    from e1 Inr have q: "quiet evs1" by simp
    show ?thesis
      using e1(1) e2 q
      by (intro exI[of _ "evs1 @ evs2"])
         (auto simp: quiet_append propagated_quiet_append split: sum.splits)
  qed
qed

lemma sound_case_prod: "(\<And>a b. sound (f a b)) \<Longrightarrow> sound (case_prod f x)"
  by (cases x) simp

lemma sound_for_each: "(\<And>x. sound (body x)) \<Longrightarrow> sound (for_each xs body)"
  by (induction xs) (auto intro: sound_ret sound_bnd)

lemma sound_try_finally_rmtree:
  assumes "sound body"
  shows "sound (try_finally body (shutil_rmtree env d))"
  unfolding sound_def
proof (intro allI impI)
  fix w r w'
  assume run: "try_finally body (shutil_rmtree env d) w = (r, w')"
  obtain r1 w1 where b: "body w = (r1, w1)" by (cases "body w")
  from assms b obtain evs1 where
    e1: "trace w1 = trace w @ evs1"
        "case r1 of Inr _ \<Rightarrow> quiet evs1 | Inl e \<Rightarrow> propagated evs1 e"
    unfolding sound_def by blast
  show "\<exists>evs. trace w' = trace w @ evs \<and>
          (case r of Inr _ \<Rightarrow> quiet evs | Inl e \<Rightarrow> propagated evs e)"
  proof (cases "env_proc env (length (trace w1)) (Rmtree d)")
    case None
    with run b have "r = r1" "trace w' = trace w1 @ [(Rmtree d, None)]"
      by (auto simp: try_finally_def shutil_rmtree_def proc_def ext_def proc_outcome_def)
    with e1 show ?thesis
      by (intro exI[of _ "evs1 @ [(Rmtree d, None)]"])
         (auto simp: quiet_append quiet_def quiet_ev_def propagated_rmtree_None
               split: sum.splits)
  next
    case (Some y)
    with run b have "r = Inl y" "trace w' = trace w1 @ [(Rmtree d, Some y)]"
      by (auto simp: try_finally_def shutil_rmtree_def proc_def ext_def proc_outcome_def)
    with e1 show ?thesis
      by (intro exI[of _ "evs1 @ [(Rmtree d, Some y)]"])
         (auto simp: propagated_rmtree_Some quiet_propagated_rmtree_Some split: sum.splits)
  qed
qed

lemma sound_make_output_dir: "sound (make_output_dir env)"
  by (auto simp: sound_def make_output_dir_def try_except_OSError_def os_makedirs_def proc_def
      ext_def ret_def proc_outcome_def quiet_def quiet_ev_def split: sum.splits option.splits)

lemma sound_data: "sound (case d of None \<Rightarrow> raise e | Some x \<Rightarrow> ret x)"
  by (cases d) (simp_all add: sound_ret sound_raise)

lemmas sound_intros = sound_bnd sound_ret sound_raise sound_lift sound_ext sound_proc
  sound_case_prod sound_for_each sound_random_sample_m sound_data

lemma sound_cell_1: "sound (cell_1 env)"
  unfolding cell_1_def by (intro sound_intros)

lemma sound_cell_3: "sound (cell_3 env)"
  unfolding cell_3_def shell_def by (intro sound_intros)

lemma sound_cell_5: "sound (cell_5 env)"
  unfolding cell_5_def by (intro sound_intros)

lemma sound_staging_body: "sound (staging_body env s a b c d)"
  unfolding staging_body_def os_makedirs_def np_savez_def upload_data_def
  by (intro sound_intros)

lemma sound_cell_7: "sound (cell_7 env s train test)"
  unfolding cell_7_def Let_def
  by (intro sound_intros sound_try_finally_rmtree sound_staging_body)

lemma sound_cell_9: "sound (cell_9 env)"
  unfolding cell_9_def shell_def by (intro sound_intros)

lemma sound_cell_11: "sound (cell_11 env r)"
  unfolding cell_11_def Let_def print_def by (intro sound_intros)

lemma sound_cell_13: "sound (cell_13 env e a b)"
  unfolding cell_13_def by (intro sound_intros)

lemma sound_fetch_artifacts: "sound (fetch_artifacts env s e)"
  unfolding fetch_artifacts_def Let_def shell_def by (intro sound_intros)

lemma sound_cell_15: "sound (cell_15 env s e)"
  unfolding cell_15_def
  by (intro sound_intros sound_make_output_dir sound_fetch_artifacts)

lemma sound_cell_17: "sound (cell_17 env)"
  unfolding cell_17_def by (intro sound_intros)

lemma sound_cell_19: "sound (cell_19 env e i)"
  unfolding cell_19_def by (intro sound_intros)

lemma sound_cell_21: "sound (cell_21 env a b)"
  unfolding cell_21_def sample_indices_def show_sample_def
  by (intro sound_intros)

lemma sound_cell_23: "sound (cell_23 env p i)"
  unfolding cell_23_def print_def by (intro sound_intros)

lemma sound_cell_25: "sound (cell_25 env)"
  unfolding cell_25_def by (intro sound_intros)

lemma sound_cell_27: "sound (cell_27 env p)"
  unfolding cell_27_def print_def Let_def by (intro sound_intros)

lemma sound_cell_29: "sound (cell_29 env e)"
  unfolding cell_29_def by (intro sound_intros)

lemma sound_run_all: "sound (run_all env)"
  unfolding run_all_def
  by (intro sound_bnd sound_case_prod sound_ret sound_cell_1 sound_cell_3 sound_cell_5
      sound_cell_7 sound_cell_9 sound_cell_11 sound_cell_13 sound_cell_15 sound_cell_17
      sound_cell_19 sound_cell_21 sound_cell_23 sound_cell_25 sound_cell_27 sound_cell_29)

lemma last_raised_nth:
  "i < length evs \<Longrightarrow> evs ! i = (c, Some e) \<Longrightarrow>
     last_raised y evs = last_raised e (drop (Suc i) evs)"
proof (induction evs arbitrary: i y)
  case Nil
  then show ?case by simp
next
  case (Cons ev evs)
  then show ?case by (cases i) auto
qed

lemma propagated_nth:
  assumes "propagated evs x" and "i < length evs" and "evs ! i = (c, Some e)"
    and "\<not> suppressed c e"
  shows "list_all (\<lambda>ev. is_rmtree (fst ev)) (drop (Suc i) evs)
       \<and> x = last_raised e (drop (Suc i) evs)"
  using assms
proof (induction evs arbitrary: i)
  case Nil
  then show ?case by simp
next
  case (Cons ev evs)
  show ?case
  proof (cases i)
    case 0
    with Cons.prems show ?thesis by (simp add: quiet_ev_def)
  next
    case (Suc k)
    show ?thesis
    proof (cases "quiet_ev ev")
      case True
      with Cons Suc show ?thesis by simp
    next
      case False
      with Cons.prems Suc have
        all: "list_all (\<lambda>ev'. is_rmtree (fst ev')) evs"
        and x: "x = last_raised (the (snd ev)) evs"
        and k: "k < length evs" "evs ! k = (c, Some e)"
        by simp_all
      from all have "list_all (\<lambda>ev'. is_rmtree (fst ev')) (drop (Suc k) evs)"
        by (metis append_take_drop_id list_all_append)
      moreover from x last_raised_nth[OF k] have "x = last_raised e (drop (Suc k) evs)"
        by simp
      ultimately show ?thesis using Suc by simp
    qed
  qed
qed

lemma quiet_nth:
  "quiet evs \<Longrightarrow> i < length evs \<Longrightarrow> evs ! i = (c, Some e) \<Longrightarrow> suppressed c e"
  by (auto simp: quiet_def list_all_length quiet_ev_def)

lemma last_raised_none:
  "list_all (\<lambda>ev. snd ev = None) evs \<Longrightarrow> last_raised e evs = e"
  by (induction evs) auto

lemma service_call_not_suppressed: "service_call c \<Longrightarrow> \<not> suppressed c e"
  by (cases c) auto

text \<open>
  Claim C4. An exception raised by a call to a service (upload_data, fit, deploy, predict,
  delete_endpoint, describe_training_job) reaches the user of the notebook: the run ends
  in an exception, nothing is called afterwards except the cleanup of the staging
  directory (so the call is not tried again), and the exception the user sees is the one
  the call raised unless the cleanup raises one of its own.
\<close>

theorem service_failure_reaches_user:
  assumes "run_all env w = (r, w')" and "trace w' = trace w @ evs"
    and "i < length evs" and "evs ! i = (c, Some e)" and "service_call c"
  shows "(\<exists>e'. r = Inl e')
       \<and> (\<forall>j. i < j \<and> j < length evs \<longrightarrow> is_rmtree (fst (evs ! j)))
       \<and> ((\<forall>j. i < j \<and> j < length evs \<longrightarrow> snd (evs ! j) = None) \<longrightarrow> r = Inl e)"
proof -
  from sound_run_all[unfolded sound_def] assms(1) obtain evs' where
    e: "trace w' = trace w @ evs'"
       "case r of Inr _ \<Rightarrow> quiet evs' | Inl x \<Rightarrow> propagated evs' x"
    by blast
  with assms(2) have [simp]: "evs' = evs" by simp
  have ns: "\<not> suppressed c e" using assms(5) by (rule service_call_not_suppressed)
  show ?thesis
  proof (cases r)
    case (Inr s)
    with e have "quiet evs" by simp
    from quiet_nth[OF this assms(3,4)] ns show ?thesis by simp
  next
    case (Inl x)
    with e have "propagated evs x" by simp
    from propagated_nth[OF this assms(3,4) ns] have
      all: "list_all (\<lambda>ev. is_rmtree (fst ev)) (drop (Suc i) evs)"
      and x: "x = last_raised e (drop (Suc i) evs)" by simp_all
    have later: "\<forall>j. i < j \<and> j < length evs \<longrightarrow> is_rmtree (fst (evs ! j))"
    proof (intro allI impI)
      fix j assume j: "i < j \<and> j < length evs"
      then have "j - Suc i < length evs - Suc i" by arith
      then have "j - Suc i < length (drop (Suc i) evs)" by simp
      with all have "is_rmtree (fst (drop (Suc i) evs ! (j - Suc i)))"
        by (simp add: list_all_length)
      with j show "is_rmtree (fst (evs ! j))" by simp
    qed
    have same: "(\<forall>j. i < j \<and> j < length evs \<longrightarrow> snd (evs ! j) = None) \<longrightarrow> r = Inl e"
    proof
      assume n: "\<forall>j. i < j \<and> j < length evs \<longrightarrow> snd (evs ! j) = None"
      have "list_all (\<lambda>ev. snd ev = None) (drop (Suc i) evs)"
        unfolding list_all_length
      proof (intro allI impI)
        fix k assume "k < length (drop (Suc i) evs)"
        then have "i < Suc i + k \<and> Suc i + k < length evs" by simp
        with n have "snd (evs ! (Suc i + k)) = None" by blast
        then show "snd (drop (Suc i) evs ! k) = None" using assms(3) by simp
      qed
      with x Inl show "r = Inl e" by (simp add: last_raised_none)
    qed
    from Inl later same show ?thesis by simp
  qed
qed

subsection \<open>Evaluating the cells on concrete environments\<close>

lemma sample_from_numeral:
  "sample_from draw (numeral v) pool =
     (if pool = [] then []
      else (let j = draw (pred_numeral v) mod length pool
            in pool ! j # sample_from draw (pred_numeral v) (take j pool @ drop (Suc j) pool)))"
  by (simp add: numeral_eq_Suc)

lemma upt_0_5: "[0..<5] = [0, 1, 2, 3, 4]"
  by code_simp

lemma upt_0_6: "[0..<6] = [0, 1, 2, 3, 4, 5]"
  by code_simp

lemma length_img0: "length img0 = 784"
  by (simp add: img0_def)

lemmas run_defs = run_all_def cell_1_def cell_3_def cell_5_def cell_7_def staging_body_def
  cell_9_def cell_11_def cell_13_def cell_15_def make_output_dir_def fetch_artifacts_def
  cell_17_def cell_19_def cell_21_def sample_indices_def show_sample_def cell_23_def
  cell_25_def cell_27_def cell_29_def
  bnd_def ret_def raise_def lift_def try_finally_def try_except_OSError_def ext_def proc_def
  proc_outcome_def os_makedirs_def np_savez_def shutil_rmtree_def upload_data_def shell_def
  print_def random_sample_m_def random_sample_def py_range_def num_samples_def
  take_idx_def py_get_def reshape_def argmax_axis1_def argmax_row_def dict_get_def
  os_path_join_def py_replace_def sample_from_numeral Let_def

lemmas data_defs = env_ok_def w0_def train0_def test0_def sess0_def est0_def desc0_def
  length_img0 upt_0_5 upt_0_6

subsection \<open>Cleanup of the staging directory\<close>

lemma ext_trace:
  "ext c orc eff w = (r, w') \<Longrightarrow>
     trace w' = trace w @ [(c, case r of Inl e \<Rightarrow> Some e | Inr _ \<Rightarrow> None)]"
  by (auto simp: ext_def split: sum.splits)

lemma staging_body_trace:
  assumes "staging_body env sess a b c d w = (r, w1)"
  shows "\<exists>evs. trace w1 = trace w @ evs \<and> (\<forall>ev\<in>set evs. \<not> is_rmtree (fst ev))"
  using assms
  by (auto simp: staging_body_def bnd_def ret_def os_makedirs_def np_savez_def upload_data_def
      proc_def ext_def split: sum.splits prod.splits)

lemma rmtree_step:
  assumes "shutil_rmtree env d w1 = (r, w2)"
  shows "trace w2 = trace w1 @ [(Rmtree d, case r of Inl e \<Rightarrow> Some e | Inr _ \<Rightarrow> None)]
       \<and> (r = Inr () \<longrightarrow> (\<forall>p\<in>fs w2. \<not> under d p))"
  using assms
  by (auto simp: shutil_rmtree_def proc_def ext_def fs_rmtree_def split: sum.splits)

text \<open>
  Claim C1. Whatever the calls of the staging cell do, return or raise, the last call of
  the cell is \<^verbatim>\<open>shutil.rmtree('/tmp/data')\<close>, made once; when it returns, nothing under
  /tmp/data is left in the file system.
\<close>

theorem staging_cleanup:
  assumes "cell_7 env sess train test w = (r, w')"
  shows "\<exists>evs out. trace w' = trace w @ evs @ [(Rmtree ''/tmp/data'', out)]
           \<and> (\<forall>ev\<in>set evs. \<not> is_rmtree (fst ev))
           \<and> (out = None \<longrightarrow> (\<forall>p\<in>fs w'. \<not> under ''/tmp/data'' p))"
proof -
  obtain r1 w1 where b: "staging_body env sess (map fst train) (map snd train)
      (map fst test) (map snd test) w = (r1, w1)"
    by (cases "staging_body env sess (map fst train) (map snd train)
      (map fst test) (map snd test) w")
  obtain r2 w2 where f: "shutil_rmtree env ''/tmp/data'' w1 = (r2, w2)"
    by (cases "shutil_rmtree env ''/tmp/data'' w1")
  from staging_body_trace[OF b] obtain evs where
    evs: "trace w1 = trace w @ evs" "\<forall>ev\<in>set evs. \<not> is_rmtree (fst ev)" by blast
  note s = rmtree_step[OF f]
  have w': "w' = w2"
    using assms b f
    by (auto simp: cell_7_def Let_def bnd_def try_finally_def ret_def split: sum.splits prod.splits)
  show ?thesis
    using evs s w' by (intro exI[of _ evs]) (auto split: sum.splits)
qed

theorem staging_cleanup_witness:
  "fst (cell_7 env_upload_fails sess0 train0 test0 w0) = Inl (OtherError ''upload'')
   \<and> snd (last (trace (snd (cell_7 env_upload_fails sess0 train0 test0 w0)))) = None
   \<and> (\<exists>evs out. trace (snd (cell_7 env_upload_fails sess0 train0 test0 w0))
          = trace w0 @ evs @ [(Rmtree ''/tmp/data'', out)]
        \<and> (\<forall>ev\<in>set evs. \<not> is_rmtree (fst ev))
        \<and> (out = None \<longrightarrow>
             (\<forall>p\<in>fs (snd (cell_7 env_upload_fails sess0 train0 test0 w0)).
                \<not> under ''/tmp/data'' p)))"
proof -
  have r: "fst (cell_7 env_upload_fails sess0 train0 test0 w0) = Inl (OtherError ''upload'')"
    by (simp add: run_defs data_defs env_upload_fails_def)
  have l: "snd (last (trace (snd (cell_7 env_upload_fails sess0 train0 test0 w0)))) = None"
    by (simp add: run_defs data_defs env_upload_fails_def)
  have a: "cell_7 env_upload_fails sess0 train0 test0 w0 =
      (fst (cell_7 env_upload_fails sess0 train0 test0 w0),
       snd (cell_7 env_upload_fails sess0 train0 test0 w0))"
    by simp
  from staging_cleanup[OF a] r l show ?thesis by blast
qed

subsection \<open>A failing deployment\<close>

lemma deploy_fails_result:
  "fst (run_all env_deploy_fails w0) = Inl (OtherError ''deploy'')"
  by (simp add: run_defs data_defs env_deploy_fails_def)

lemma deploy_fails_trace:
  "length (trace (snd (run_all env_deploy_fails w0))) = 25
   \<and> trace (snd (run_all env_deploy_fails w0)) ! 24
       = (Deploy est0 1 ''local'', Some (OtherError ''deploy''))"
  by (simp add: run_defs data_defs env_deploy_fails_def)

theorem service_failure_reaches_user_witness:
  "trace (snd (run_all env_deploy_fails w0)) ! 24
       = (Deploy est0 1 ''local'', Some (OtherError ''deploy''))
   \<and> service_call (Deploy est0 1 ''local'')
   \<and> fst (run_all env_deploy_fails w0) = Inl (OtherError ''deploy'')"
proof -
  let ?r = "fst (run_all env_deploy_fails w0)"
  let ?w = "snd (run_all env_deploy_fails w0)"
  have a: "run_all env_deploy_fails w0 = (?r, ?w)" by simp
  have b: "trace ?w = trace w0 @ trace ?w" by (simp add: w0_def)
  have c: "24 < length (trace ?w)" using deploy_fails_trace by simp
  have d: "trace ?w ! 24 = (Deploy est0 1 ''local'', Some (OtherError ''deploy''))"
    using deploy_fails_trace by simp
  have e: "service_call (Deploy est0 1 ''local'')" by simp
  have f: "\<forall>j. 24 < j \<and> j < length (trace ?w) \<longrightarrow> snd (trace ?w ! j) = None"
    using deploy_fails_trace by auto
  from service_failure_reaches_user[OF a b c d e] f d e show ?thesis by blast
qed

subsection \<open>The one suppression\<close>

text \<open>
  Claim C3, as amended. The creation of the output directory is the one place where an
  exception is suppressed, and what is suppressed there is every OSError, not only
  "already exists": after an OSError the cell goes on as if the directory had been made,
  any other exception ends the cell; and in a run that completes, every exception that
  was raised is an OSError of that call.
\<close>

theorem makedirs_suppression:
  "(env_proc env (length (trace w)) (Makedirs ''output/single_machine_mnist'') = Some e \<longrightarrow>
      cell_15 env sess est w =
        (if is_OSError e
         then fetch_artifacts env sess est
                (w\<lparr>trace := trace w @ [(Makedirs ''output/single_machine_mnist'', Some e)]\<rparr>)
         else (Inl e,
               w\<lparr>trace := trace w @ [(Makedirs ''output/single_machine_mnist'', Some e)]\<rparr>)))
   \<and> (run_all env' w1 = (Inr s, w1') \<and> trace w1' = trace w1 @ evs \<and> (c, Some x) \<in> set evs \<longrightarrow>
        c = Makedirs ''output/single_machine_mnist'' \<and> is_OSError x)"
proof (intro conjI impI)
  assume "env_proc env (length (trace w)) (Makedirs ''output/single_machine_mnist'') = Some e"
  then show "cell_15 env sess est w =
        (if is_OSError e
         then fetch_artifacts env sess est
                (w\<lparr>trace := trace w @ [(Makedirs ''output/single_machine_mnist'', Some e)]\<rparr>)
         else (Inl e,
               w\<lparr>trace := trace w @ [(Makedirs ''output/single_machine_mnist'', Some e)]\<rparr>))"
    by (simp add: cell_15_def make_output_dir_def bnd_def try_except_OSError_def
        os_makedirs_def proc_def ext_def proc_outcome_def ret_def)
next
  assume a: "run_all env' w1 = (Inr s, w1') \<and> trace w1' = trace w1 @ evs \<and> (c, Some x) \<in> set evs"
  with sound_run_all[unfolded sound_def] obtain evs' where
    "trace w1' = trace w1 @ evs'" "quiet evs'" by fastforce
  with a have "quiet evs" by simp
  with a have "suppressed c x"
    by (auto simp: quiet_def list_all_iff quiet_ev_def)
  then show "c = Makedirs ''output/single_machine_mnist''" "is_OSError x"
    by (cases c; simp)+
qed

text \<open>
  The claim as stated fails: a PermissionError of the directory creation is not an
  "already exists" error, and the cell completes all the same.
\<close>

theorem makedirs_suppression_counterexample:
  "env_proc env_no_permission (length (trace w0)) (Makedirs ''output/single_machine_mnist'')
     = Some PermissionError
   \<and> PermissionError \<noteq> FileExistsError
   \<and> cell_15 env_no_permission sess0 est0 w0 =
       (Inr ''s3://output-bucket/job/output/output.tar.gz'',
        \<lparr>trace = [(Makedirs ''output/single_machine_mnist'', Some PermissionError),
                  (LatestTrainingJobName est0, None),
                  (DescribeTrainingJob ''job'', None),
                  (Shell ''aws --region us-west-2 s3 cp s3://output-bucket/job/output/output.tar.gz output/single_machine_mnist/output.tar'', None),
                  (Shell ''tar -xzvf output/single_machine_mnist/output.tar -C output/single_machine_mnist'', None)],
         fs = {}\<rparr>)"
  by (simp add: run_defs data_defs env_no_permission_def)

lemma no_permission_run:
  "\<exists>s. fst (run_all env_no_permission w0) = Inr s"
  by (simp add: run_defs data_defs env_no_permission_def)

lemma no_permission_event:
  "(Makedirs ''output/single_machine_mnist'', Some PermissionError)
     \<in> set (trace (snd (run_all env_no_permission w0)))"
  by (simp add: run_defs data_defs env_no_permission_def)

theorem makedirs_suppression_witness:
  "cell_15 env_no_permission sess0 est0 w0 =
     fetch_artifacts env_no_permission sess0 est0
       (w0\<lparr>trace := trace w0 @ [(Makedirs ''output/single_machine_mnist'', Some PermissionError)]\<rparr>)
   \<and> (\<exists>s. fst (run_all env_no_permission w0) = Inr s)
   \<and> (Makedirs ''output/single_machine_mnist'', Some PermissionError)
        \<in> set (trace (snd (run_all env_no_permission w0)))
   \<and> is_OSError PermissionError"
proof -
  have h: "env_proc env_no_permission (length (trace w0))
             (Makedirs ''output/single_machine_mnist'') = Some PermissionError"
    by (simp add: env_no_permission_def env_ok_def)
  from makedirs_suppression[of env_no_permission w0 PermissionError sess0 est0] h
  have "cell_15 env_no_permission sess0 est0 w0 =
     fetch_artifacts env_no_permission sess0 est0
       (w0\<lparr>trace := trace w0 @ [(Makedirs ''output/single_machine_mnist'', Some PermissionError)]\<rparr>)"
    by simp
  with no_permission_run no_permission_event show ?thesis by simp
qed

subsection \<open>The shapes of the runs\<close>

lemma covers_ret: "covers (ret x) (seqs [])"
  by (simp add: covers_def ret_def seqs.simps)

lemma covers_ext: "kind_of c = k \<Longrightarrow> covers (ext c orc eff) (one k)"
  by (auto simp: covers_def ext_def one_def sh_def split: sum.splits)

lemma covers_proc: "kind_of c = k \<Longrightarrow> covers (proc env c eff) (one k)"
  by (simp add: proc_def covers_ext)

lemma covers_shell:
  "takeWhile (\<lambda>c. c \<noteq> CHR '' '') cmd = p \<Longrightarrow> covers (shell env cmd) (total (K_Shell p))"
  by (auto simp: covers_def shell_def ext_def total_def sh_def)

lemma covers_print: "covers (print s a) (total K_Print)"
  by (auto simp: covers_def print_def ext_def total_def sh_def)

lemma covers_lift: "covers (lift r) pure"
  by (cases r) (auto simp: covers_def lift_def pure_def)

lemma covers_random_sample_m: "covers (random_sample_m env pop k) pure"
  by (auto simp: covers_def random_sample_m_def pure_def)

lemma covers_data: "covers (case d of None \<Rightarrow> raise e | Some x \<Rightarrow> ret x) pure"
  by (cases d) (auto simp: covers_def raise_def ret_def pure_def)

lemma covers_bnd:
  assumes "covers f S" and "\<And>x. covers (g x) (seqs Ss)"
  shows "covers (bnd f g) (seqs (S # Ss))"
  unfolding covers_def
proof (intro allI impI)
  fix w r w'
  assume run: "bnd f g w = (r, w')"
  obtain r1 w1 where f: "f w = (r1, w1)" by (cases "f w")
  from assms(1) f obtain evs1 where
    e1: "trace w1 = trace w @ evs1" "(map sh evs1, isl r1) \<in> set S"
    unfolding covers_def by blast
  show "\<exists>evs. trace w' = trace w @ evs \<and> (map sh evs, isl r) \<in> set (seqs (S # Ss))"
  proof (cases r1)
    case (Inl e)
    with run f have "r = Inl e" "w' = w1" by (auto simp: bnd_def)
    with e1 Inl show ?thesis by (auto simp: seqS_def seqs.simps)
  next
    case (Inr x)
    with run f have g: "g x w1 = (r, w')" by (auto simp: bnd_def)
    from assms(2)[of x] g obtain evs2 where
      e2: "trace w' = trace w1 @ evs2" "(map sh evs2, isl r) \<in> set (seqs Ss)"
      unfolding covers_def by blast
    show ?thesis
      using e1 e2 Inr
      by (intro exI[of _ "evs1 @ evs2"]) (force simp: seqS_def seqs.simps)
  qed
qed

lemma covers_last: "covers f S \<Longrightarrow> covers f (seqs [S])"
  by (force simp: covers_def seqS_def seqs.simps)

lemma covers_case_prod: "(\<And>a b. covers (f a b) S) \<Longrightarrow> covers (case_prod f x) S"
  by (cases x) simp

lemma covers_for_each:
  "(\<And>x. covers (body x) S) \<Longrightarrow> covers (for_each xs body) (seqs (replicate (length xs) S))"
  by (induction xs) (auto intro!: covers_ret covers_bnd)

lemma covers_try_finally:
  assumes "covers body S1" and "covers fin S2"
  shows "covers (try_finally body fin) (finS S1 S2)"
  unfolding covers_def
proof (intro allI impI)
  fix w r w'
  assume run: "try_finally body fin w = (r, w')"
  obtain r1 w1 where b: "body w = (r1, w1)" by (cases "body w")
  obtain r2 w2 where f: "fin w1 = (r2, w2)" by (cases "fin w1")
  from assms(1) b obtain evs1 where
    e1: "trace w1 = trace w @ evs1" "(map sh evs1, isl r1) \<in> set S1"
    unfolding covers_def by blast
  from assms(2) f obtain evs2 where
    e2: "trace w2 = trace w1 @ evs2" "(map sh evs2, isl r2) \<in> set S2"
    unfolding covers_def by blast
  from run b f have "w' = w2" "isl r = (isl r1 \<or> isl r2)"
    by (auto simp: try_finally_def split: sum.splits)
  then show "\<exists>evs. trace w' = trace w @ evs \<and> (map sh evs, isl r) \<in> set (finS S1 S2)"
    using e1 e2 by (intro exI[of _ "evs1 @ evs2"]) (force simp: finS_def)
qed

lemma covers_try_except:
  assumes "covers body S"
  shows "covers (try_except_OSError body (ret x)) (caughtS S)"
  unfolding covers_def
proof (intro allI impI)
  fix w r w'
  assume run: "try_except_OSError body (ret x) w = (r, w')"
  obtain r1 w1 where b: "body w = (r1, w1)" by (cases "body w")
  from assms(1) b obtain evs1 where
    e1: "trace w1 = trace w @ evs1" "(map sh evs1, isl r1) \<in> set S"
    unfolding covers_def by blast
  from run b have "w' = w1" "isl r = isl r1 \<or> \<not> isl r"
    by (auto simp: try_except_OSError_def ret_def split: sum.splits if_splits)
  then show "\<exists>evs. trace w' = trace w @ evs \<and> (map sh evs, isl r) \<in> set (caughtS S)"
    using e1 by (intro exI[of _ evs1]) (force simp: caughtS_def)
qed

lemmas covers_steps = covers_bnd covers_ret covers_case_prod

lemma covers_cell_1: "covers (cell_1 env) sh_cell_1"
  unfolding cell_1_def sh_cell_1_def
  by (intro covers_steps covers_ext) simp_all

lemma covers_cell_3: "covers (cell_3 env) (total (K_Shell ''/bin/bash''))"
  unfolding cell_3_def by (rule covers_shell) simp

lemma covers_cell_5: "covers (cell_5 env) (one K_GetMnist)"
  unfolding cell_5_def by (rule covers_ext) simp

lemma covers_staging_body: "covers (staging_body env s a b c d) sh_staging_body"
  unfolding staging_body_def sh_staging_body_def os_makedirs_def np_savez_def upload_data_def
  by (intro covers_steps covers_ext covers_proc) simp_all

lemma covers_cell_7: "covers (cell_7 env s train test) sh_cell_7"
  unfolding cell_7_def sh_cell_7_def Let_def shutil_rmtree_def
  by (intro covers_steps covers_try_finally covers_staging_body covers_proc) simp_all

lemma covers_cell_9: "covers (cell_9 env) (total (K_Shell ''pygmentize''))"
  unfolding cell_9_def by (rule covers_shell) simp

lemma covers_cell_11: "covers (cell_11 env r) sh_cell_11"
  unfolding cell_11_def sh_cell_11_def Let_def
  by (intro covers_steps covers_ext covers_proc covers_print) simp_all

lemma covers_cell_13: "covers (cell_13 env e a b) (one K_Fit)"
  unfolding cell_13_def by (rule covers_proc) simp

lemma covers_make_output_dir: "covers (make_output_dir env) (caughtS (one K_Makedirs))"
  unfolding make_output_dir_def os_makedirs_def
  by (intro covers_try_except covers_proc) simp

lemma covers_fetch_artifacts: "covers (fetch_artifacts env s e) sh_fetch_artifacts"
  unfolding fetch_artifacts_def sh_fetch_artifacts_def Let_def
  by (intro covers_steps covers_ext covers_lift covers_shell) simp_all

lemma covers_cell_15: "covers (cell_15 env s e) sh_cell_15"
  unfolding cell_15_def sh_cell_15_def
  by (intro covers_bnd covers_last covers_make_output_dir covers_fetch_artifacts)

lemma covers_cell_17: "covers (cell_17 env) sh_cell_17"
  unfolding cell_17_def sh_cell_17_def
  by (intro covers_steps covers_last covers_proc) simp_all

lemma covers_cell_19: "covers (cell_19 env e i) (one K_Deploy)"
  unfolding cell_19_def by (rule covers_ext) simp

lemma covers_show_sample: "covers (show_sample env a b i) sh_show_sample"
  unfolding show_sample_def sh_show_sample_def
  by (intro covers_steps covers_last covers_proc covers_lift) simp_all

lemma covers_cell_21: "covers (cell_21 env a b) sh_cell_21"
proof -
  have n: "length (py_range (int num_samples)) = 5"
    by (simp add: py_range_def num_samples_def)
  have loop: "covers (for_each (py_range (int num_samples)) (show_sample env x y))
                (seqs (replicate 5 sh_show_sample))" for x y
    using covers_for_each[of "show_sample env x y" sh_show_sample "py_range (int num_samples)"]
      covers_show_sample
    by (simp only: n)
  show ?thesis
    unfolding cell_21_def sh_cell_21_def sample_indices_def
    by (intro covers_steps covers_lift covers_random_sample_m loop)
qed

lemma covers_cell_23: "covers (cell_23 env p i) sh_cell_23"
  unfolding cell_23_def sh_cell_23_def
  by (intro covers_steps covers_ext covers_lift covers_print) simp_all

lemma covers_cell_25: "covers (cell_25 env) sh_cell_25"
  unfolding cell_25_def sh_cell_25_def
  by (intro covers_steps covers_last covers_ext covers_proc) simp_all

lemma covers_cell_27: "covers (cell_27 env p) sh_cell_27"
  unfolding cell_27_def sh_cell_27_def Let_def
  by (intro covers_steps covers_data covers_ext covers_lift covers_print) simp_all

lemma covers_cell_29: "covers (cell_29 env e) (one K_DeleteEndpoint)"
  unfolding cell_29_def by (rule covers_proc) simp

lemma covers_run_all: "covers (run_all env) sh_run_all"
  unfolding run_all_def sh_run_all_def
  by (intro covers_steps covers_last covers_cell_1 covers_cell_3 covers_cell_5 covers_cell_7
      covers_cell_9 covers_cell_11 covers_cell_13 covers_cell_15 covers_cell_17 covers_cell_19
      covers_cell_21 covers_cell_23 covers_cell_25 covers_cell_27 covers_cell_29)

lemma shapes_ordered:
  "list_all (\<lambda>s. ordered (fst s) \<and> (\<not> snd s \<longrightarrow> map fst (fst s) = notebook_calls)) sh_run_all"
  by code_simp

lemma run_shape:
  assumes "run_all env w = (r, w')" and "trace w' = trace w @ evs"
  shows "ordered (map sh evs) \<and> (\<not> isl r \<longrightarrow> kinds evs = notebook_calls)"
proof -
  from covers_run_all[unfolded covers_def] assms(1) obtain evs' where
    e: "trace w' = trace w @ evs'" "(map sh evs', isl r) \<in> set sh_run_all"
    by blast
  with assms(2) have "evs' = evs" by simp
  with e shapes_ordered have
    "ordered (map sh evs) \<and> (\<not> isl r \<longrightarrow> map fst (map sh evs) = notebook_calls)"
    by (auto simp: list_all_iff)
  moreover have "map fst (map sh evs) = kinds evs"
    by (simp add: kinds_def sh_def comp_def)
  ultimately show ?thesis by simp
qed

text \<open>
  Claim C5. In every run of the notebook, whatever the calls return or raise: the data
  set is saved and uploaded only after it was fetched; fit is called only after the
  estimator was constructed; the artifacts are downloaded and images displayed only after
  fit returned; deploy is called only after fit returned; predict is called only after
  deploy returned; delete_endpoint, when it is called, is the last call, and both predict
  calls have returned before it. A run that completes makes the calls of the notebook in
  their fixed order.
\<close>

theorem notebook_order:
  assumes "run_all env w = (r, w')" and "trace w' = trace w @ evs"
  shows "follows K_GetMnist [K_Savez, K_UploadData] evs
       \<and> follows K_Chainer [K_Fit] evs
       \<and> follows K_Fit shown evs
       \<and> follows K_Fit [K_Deploy] evs
       \<and> follows K_Deploy [K_Predict] evs
       \<and> final_op K_DeleteEndpoint evs
       \<and> (is_called K_DeleteEndpoint evs \<longrightarrow> returned_count K_Predict evs = 2)
       \<and> (\<not> isl r \<longrightarrow> kinds evs = notebook_calls)"
  using run_shape[OF assms]
  by (simp add: ordered_def follows_def final_op_def is_called_def returned_count_def)

lemma ok_run_completes:
  "fst (run_all env_ok w0) =
     Inr \<lparr>s_instance_type = ''local'',
          s_output_data = ''s3://output-bucket/job/output/output.tar.gz'',
          s_indices = [4, 3, 2, Suc 0, 0],
          s_batch_labels = [Suc 0, Suc 0, Suc 0, Suc 0, Suc 0],
          s_drawn_label = Suc 0\<rparr>"
  by (simp add: run_defs data_defs)

lemma gpu_run_completes:
  "fst (run_all env_gpu w0) =
     Inr \<lparr>s_instance_type = ''local_gpu'',
          s_output_data = ''s3://output-bucket/job/output/output.tar.gz'',
          s_indices = [4, 3, 2, Suc 0, 0],
          s_batch_labels = [Suc 0, Suc 0, Suc 0, Suc 0, Suc 0],
          s_drawn_label = Suc 0\<rparr>"
  by (simp add: run_defs data_defs env_gpu_def)

lemma is_called_kinds: "is_called k evs \<longleftrightarrow> k \<in> set (kinds evs)"
  by (auto simp: is_called_def kinds_def called_def sh_def list_ex_iff)

theorem notebook_order_witness:
  "\<not> isl (fst (run_all env_ok w0))
   \<and> follows K_GetMnist [K_Savez, K_UploadData] (trace (snd (run_all env_ok w0)))
   \<and> follows K_Chainer [K_Fit] (trace (snd (run_all env_ok w0)))
   \<and> follows K_Fit shown (trace (snd (run_all env_ok w0)))
   \<and> follows K_Fit [K_Deploy] (trace (snd (run_all env_ok w0)))
   \<and> follows K_Deploy [K_Predict] (trace (snd (run_all env_ok w0)))
   \<and> final_op K_DeleteEndpoint (trace (snd (run_all env_ok w0)))
   \<and> returned_count K_Predict (trace (snd (run_all env_ok w0))) = 2
   \<and> kinds (trace (snd (run_all env_ok w0))) = notebook_calls"
proof -
  let ?r = "fst (run_all env_ok w0)"
  let ?w = "snd (run_all env_ok w0)"
  have a: "run_all env_ok w0 = (?r, ?w)" by simp
  have b: "trace ?w = trace w0 @ trace ?w" by (simp add: w0_def)
  have c: "\<not> isl ?r" by (simp add: ok_run_completes)
  note t = notebook_order[OF a b]
  from t c have k: "kinds (trace ?w) = notebook_calls" by blast
  have "is_called K_DeleteEndpoint (trace ?w)"
    using k by (simp add: is_called_kinds notebook_calls_def)
  with t c show ?thesis by blast
qed

subsection \<open>What the staging cell calls\<close>

text \<open>
  Claim C6, as amended. A staging cell that completes has made, in this order: the two
  directories, one file of the training arrays (train.npz), one file of the test arrays
  (test.npz), one upload of the training directory, one upload of the test directory,
  and the removal of /tmp/data; so two files and two upload calls, each upload a single
  call whose result is the input location handed on.
\<close>

theorem staging_calls:
  assumes "cell_7 env sess train test w =
             (Inr (test_images, test_labels, train_input, test_input), w')"
  shows "trace w' = trace w @
           [(Makedirs ''/tmp/data/train'', None),
            (Makedirs ''/tmp/data/test'', None),
            (Savez ''/tmp/data/train/train.npz'' (map fst train) (map snd train), None),
            (Savez ''/tmp/data/test/test.npz'' (map fst test) (map snd test), None),
            (UploadData sess ''/tmp/data/train'' ''notebook/chainer/mnist'', None),
            (UploadData sess ''/tmp/data/test'' ''notebook/chainer/mnist'', None),
            (Rmtree ''/tmp/data'', None)]
       \<and> env_upload_data env (length (trace w) + 4) sess ''/tmp/data/train''
             ''notebook/chainer/mnist'' = Inr train_input
       \<and> env_upload_data env (length (trace w) + 5) sess ''/tmp/data/test''
             ''notebook/chainer/mnist'' = Inr test_input"
  using assms
  by (auto simp: cell_7_def staging_body_def Let_def bnd_def try_finally_def ret_def
      os_makedirs_def np_savez_def upload_data_def shutil_rmtree_def proc_def ext_def
      proc_outcome_def os_path_join_def eval_nat_numeral
      split: sum.splits option.splits prod.splits)

text \<open>
  The claim as stated (one file, one upload call) fails: a staging that completes has
  saved twice and uploaded twice.
\<close>

theorem staging_calls_counterexample:
  "fst (cell_7 env_ok sess0 train0 test0 w0) =
     Inr (map fst test0, map snd test0, ''s3://bucket/notebook/chainer/mnist'',
          ''s3://bucket/notebook/chainer/mnist'')
   \<and> call_count K_Savez (trace (snd (cell_7 env_ok sess0 train0 test0 w0))) = 2
   \<and> call_count K_UploadData (trace (snd (cell_7 env_ok sess0 train0 test0 w0))) = 2"
  by (simp add: run_defs env_ok_def w0_def call_count_def called_def sh_def)

theorem staging_calls_witness:
  "trace (snd (cell_7 env_ok sess0 train0 test0 w0)) =
           [(Makedirs ''/tmp/data/train'', None),
            (Makedirs ''/tmp/data/test'', None),
            (Savez ''/tmp/data/train/train.npz'' (map fst train0) (map snd train0), None),
            (Savez ''/tmp/data/test/test.npz'' (map fst test0) (map snd test0), None),
            (UploadData sess0 ''/tmp/data/train'' ''notebook/chainer/mnist'', None),
            (UploadData sess0 ''/tmp/data/test'' ''notebook/chainer/mnist'', None),
            (Rmtree ''/tmp/data'', None)]"
proof -
  have r: "fst (cell_7 env_ok sess0 train0 test0 w0) =
     Inr (map fst test0, map snd test0, ''s3://bucket/notebook/chainer/mnist'',
          ''s3://bucket/notebook/chainer/mnist'')"
    by (simp add: run_defs env_ok_def w0_def)
  have a: "cell_7 env_ok sess0 train0 test0 w0 =
     (Inr (map fst test0, map snd test0, ''s3://bucket/notebook/chainer/mnist'',
          ''s3://bucket/notebook/chainer/mnist''), snd (cell_7 env_ok sess0 train0 test0 w0))"
    using r by (metis prod.collapse)
  from staging_calls[OF a] show ?thesis by (simp add: w0_def)
qed

subsection \<open>The instance type\<close>

text \<open>
  Claim C8. Whenever the estimator is constructed, its train_instance_type is 'local' or
  'local_gpu', and it is 'local_gpu' exactly when \<^verbatim>\<open>subprocess.call('nvidia-smi')\<close>
  returned 0.
\<close>

theorem instance_type_choice:
  assumes "cell_11 env role0 w = (r, w')" and "trace w' = trace w @ evs"
    and "(Chainer est, out) \<in> set evs"
  shows "(train_instance_type est = ''local'' \<or> train_instance_type est = ''local_gpu'')
       \<and> (train_instance_type est = ''local_gpu'' \<longleftrightarrow>
            env_subprocess_call env (length (trace w)) ''nvidia-smi'' = Inr 0)"
  using assms
  by (auto simp: cell_11_def Let_def bnd_def ret_def print_def proc_def ext_def
      proc_outcome_def split: sum.splits option.splits if_splits)

theorem instance_type_choice_witness:
  "(Chainer (est0\<lparr>train_instance_type := ''local_gpu''\<rparr>), None)
     \<in> set (trace (snd (cell_11 env_gpu ''role'' w0)))
   \<and> env_subprocess_call env_gpu (length (trace w0)) ''nvidia-smi'' = Inr 0
   \<and> train_instance_type (est0\<lparr>train_instance_type := ''local_gpu''\<rparr>) = ''local_gpu''"
proof -
  have a: "cell_11 env_gpu ''role'' w0 =
             (fst (cell_11 env_gpu ''role'' w0), snd (cell_11 env_gpu ''role'' w0))"
    by simp
  have b: "trace (snd (cell_11 env_gpu ''role'' w0))
             = trace w0 @ trace (snd (cell_11 env_gpu ''role'' w0))"
    by (simp add: w0_def)
  have c: "(Chainer (est0\<lparr>train_instance_type := ''local_gpu''\<rparr>), None)
     \<in> set (trace (snd (cell_11 env_gpu ''role'' w0)))"
    by (simp add: run_defs data_defs env_gpu_def)
  from instance_type_choice[OF a b c] c show ?thesis by simp
qed

subsection \<open>The one conditional\<close>

text \<open>
  Claim C7, as amended. The notebook has one conditional of its own, on the exit status
  of nvidia-smi, and it selects the instance type ('local' or 'local_gpu') given to the
  estimator; it changes no sequence of calls: any two runs that complete make the same
  calls in the same order, and the cell with the conditional always makes the same three
  calls.
\<close>

theorem call_sequence_fixed:
  "(run_all env1 w1 = (Inr s1, w1') \<and> trace w1' = trace w1 @ evs1
    \<and> run_all env2 w2 = (Inr s2, w2') \<and> trace w2' = trace w2 @ evs2
      \<longrightarrow> kinds evs1 = kinds evs2)
   \<and> (cell_11 env role0 w = (Inr (instance_type, est), w') \<longrightarrow>
        (instance_type = ''local'' \<or> instance_type = ''local_gpu'')
        \<and> est = \<lparr>entry_point = ''chainer_mnist_single_machine.py'', role = role0,
                  train_instance_count = 1, train_instance_type = instance_type,
                  hyperparameters = [(''epochs'', 3), (''batch_size'', 128)]\<rparr>
        \<and> trace w' = trace w @
             [(SubprocessCall ''nvidia-smi'', None),
              (Print (''Instance type = '' @ instance_type) [], None),
              (Chainer est, None)])"
proof (rule conjI, goal_cases)
  case 1
  show ?case
  proof (rule impI)
    assume a: "run_all env1 w1 = (Inr s1, w1') \<and> trace w1' = trace w1 @ evs1
      \<and> run_all env2 w2 = (Inr s2, w2') \<and> trace w2' = trace w2 @ evs2"
    then have "kinds evs1 = notebook_calls" "kinds evs2 = notebook_calls"
      using run_shape[of env1 w1 "Inr s1" w1' evs1] run_shape[of env2 w2 "Inr s2" w2' evs2]
      by simp_all
    then show "kinds evs1 = kinds evs2" by simp
  qed
next
  case 2
  show ?case
    by (auto simp: cell_11_def Let_def bnd_def ret_def print_def proc_def ext_def
        proc_outcome_def split: sum.splits option.splits if_splits)
qed

text \<open>
  The claim as stated (no step depends on a conditional of the repository) fails: with
  and without a GPU the estimator step prints another line and constructs another
  estimator.
\<close>

theorem call_sequence_fixed_counterexample:
  "trace (snd (cell_11 env_ok ''role'' w0)) =
     [(SubprocessCall ''nvidia-smi'', None),
      (Print ''Instance type = local'' [], None),
      (Chainer est0, None)]
   \<and> trace (snd (cell_11 env_gpu ''role'' w0)) =
     [(SubprocessCall ''nvidia-smi'', None),
      (Print ''Instance type = local_gpu'' [], None),
      (Chainer (est0\<lparr>train_instance_type := ''local_gpu''\<rparr>), None)]
   \<and> trace (snd (cell_11 env_ok ''role'' w0)) \<noteq> trace (snd (cell_11 env_gpu ''role'' w0))"
  by (simp add: run_defs data_defs env_gpu_def)

theorem call_sequence_fixed_witness:
  "(\<exists>s. fst (run_all env_ok w0) = Inr s) \<and> (\<exists>s. fst (run_all env_gpu w0) = Inr s)
   \<and> kinds (trace (snd (run_all env_ok w0))) = kinds (trace (snd (run_all env_gpu w0)))
   \<and> fst (cell_11 env_gpu ''role'' w0)
        = Inr (''local_gpu'', est0\<lparr>train_instance_type := ''local_gpu''\<rparr>)
   \<and> trace (snd (cell_11 env_gpu ''role'' w0)) =
        [(SubprocessCall ''nvidia-smi'', None),
         (Print ''Instance type = local_gpu'' [], None),
         (Chainer (est0\<lparr>train_instance_type := ''local_gpu''\<rparr>), None)]"
proof -
  obtain s1 where s1: "fst (run_all env_ok w0) = Inr s1" using ok_run_completes by blast
  obtain s2 where s2: "fst (run_all env_gpu w0) = Inr s2" using gpu_run_completes by blast
  have a1: "run_all env_ok w0 = (Inr s1, snd (run_all env_ok w0))"
    using s1 by (metis prod.collapse)
  have a2: "run_all env_gpu w0 = (Inr s2, snd (run_all env_gpu w0))"
    using s2 by (metis prod.collapse)
  have b1: "trace (snd (run_all env_ok w0)) = trace w0 @ trace (snd (run_all env_ok w0))"
    by (simp add: w0_def)
  have b2: "trace (snd (run_all env_gpu w0)) = trace w0 @ trace (snd (run_all env_gpu w0))"
    by (simp add: w0_def)
  have c: "fst (cell_11 env_gpu ''role'' w0)
        = Inr (''local_gpu'', est0\<lparr>train_instance_type := ''local_gpu''\<rparr>)"
    by (simp add: run_defs data_defs env_gpu_def)
  have d: "cell_11 env_gpu ''role'' w0
        = (Inr (''local_gpu'', est0\<lparr>train_instance_type := ''local_gpu''\<rparr>),
           snd (cell_11 env_gpu ''role'' w0))"
    using c by (metis prod.collapse)
  note t = call_sequence_fixed[of env_ok w0 s1 "snd (run_all env_ok w0)"
      "trace (snd (run_all env_ok w0))" env_gpu w0 s2 "snd (run_all env_gpu w0)"
      "trace (snd (run_all env_gpu w0))" env_gpu "''role''" w0 "''local_gpu''"
      "est0\<lparr>train_instance_type := ''local_gpu''\<rparr>" "snd (cell_11 env_gpu ''role'' w0)"]
  from t a1 a2 b1 b2 d have
    "kinds (trace (snd (run_all env_ok w0))) = kinds (trace (snd (run_all env_gpu w0)))"
    "trace (snd (cell_11 env_gpu ''role'' w0)) = trace w0 @
        [(SubprocessCall ''nvidia-smi'', None),
         (Print (''Instance type = '' @ ''local_gpu'') [], None),
         (Chainer (est0\<lparr>train_instance_type := ''local_gpu''\<rparr>), None)]"
    by blast+
  with s1 s2 c show ?thesis by (simp add: w0_def)
qed

subsection \<open>argmax\<close>

lemma flt_le_not_nan: "flt_le x y \<Longrightarrow> \<not> is_nan x \<and> \<not> is_nan y"
  by (cases x; cases y; simp)

lemma flt_le_refl: "\<not> is_nan x \<Longrightarrow> flt_le x x"
  by (cases x; simp)

lemma flt_le_total: "\<not> is_nan x \<Longrightarrow> \<not> is_nan y \<Longrightarrow> \<not> flt_le x y \<Longrightarrow> flt_le y x"
  by (cases x; cases y; simp)

lemma flt_le_trans: "flt_le x y \<Longrightarrow> flt_le y z \<Longrightarrow> flt_le x z"
  by (cases x; cases y; cases z; simp)

lemma flt_le_less_trans: "flt_le x y \<Longrightarrow> flt_less y z \<Longrightarrow> flt_less x z"
  unfolding flt_less_def by (cases x; cases y; cases z; simp)

lemma no_nan_below: "\<forall>x\<in>set pre. flt_le x mp \<Longrightarrow> \<not> list_ex is_nan pre"
  by (auto simp: list_ex_iff dest: flt_le_not_nan)

lemma argmax_from_spec:
  assumes "length pre = i" and "bi < i" and "pre ! bi = mp"
    and "\<forall>x\<in>set pre. flt_le x mp" and "\<forall>k<bi. flt_less (pre ! k) mp"
  shows "first_max_at (pre @ xs) (argmax_from mp bi i xs)"
  using assms
proof (induction xs arbitrary: pre i bi mp)
  case Nil
  from Nil.prems have "\<not> list_ex is_nan pre" by (simp add: no_nan_below)
  moreover have "list_all (\<lambda>x. flt_less x (pre ! bi)) (take bi pre)"
    unfolding list_all_length using Nil.prems by simp
  ultimately show ?case
    using Nil.prems by (simp add: first_max_at_def list_all_iff)
next
  case (Cons x xs)
  from Cons.prems have nn: "\<not> list_ex is_nan pre" by (simp add: no_nan_below)
  from Cons.prems have "bi < length pre" by simp
  then have "pre ! bi \<in> set pre" by (rule nth_mem)
  with Cons.prems have "flt_le mp mp" by blast
  then have mp: "\<not> is_nan mp" using flt_le_not_nan by blast
  show ?case
  proof (cases "flt_le x mp")
    case True
    have "first_max_at ((pre @ [x]) @ xs) (argmax_from mp bi (Suc i) xs)"
    proof (rule Cons.IH)
      show "length (pre @ [x]) = Suc i" using Cons.prems by simp
      show "bi < Suc i" using Cons.prems by simp
      show "(pre @ [x]) ! bi = mp" using Cons.prems by (simp add: nth_append)
      show "\<forall>y\<in>set (pre @ [x]). flt_le y mp" using Cons.prems True by auto
      show "\<forall>k<bi. flt_less ((pre @ [x]) ! k) mp" using Cons.prems by (simp add: nth_append)
    qed
    with True show ?thesis by simp
  next
    case False
    show ?thesis
    proof (cases "is_nan x")
      case nan: True
      have "(pre @ x # xs) ! i = x" using Cons.prems by (simp add: nth_append)
      moreover have "take i (pre @ x # xs) = pre" using Cons.prems by simp
      moreover have "list_ex is_nan (pre @ x # xs)" using nan by simp
      ultimately have "first_max_at (pre @ x # xs) i"
        using nan nn Cons.prems by (simp add: first_max_at_def)
      with False nan show ?thesis by simp
    next
      case num: False
      from flt_le_total[OF num mp False] have le: "flt_le mp x" .
      with False have less: "flt_less mp x" by (simp add: flt_less_def)
      have "first_max_at ((pre @ [x]) @ xs) (argmax_from x i (Suc i) xs)"
      proof (rule Cons.IH)
        show "length (pre @ [x]) = Suc i" using Cons.prems by simp
        show "i < Suc i" by simp
        show "(pre @ [x]) ! i = x" using Cons.prems by (simp add: nth_append)
        show "\<forall>y\<in>set (pre @ [x]). flt_le y x"
          using Cons.prems le num by (auto intro: flt_le_trans flt_le_refl)
        show "\<forall>k<i. flt_less ((pre @ [x]) ! k) x"
        proof (intro allI impI)
          fix k assume k: "k < i"
          with Cons.prems have "pre ! k \<in> set pre" by simp
          with Cons.prems have "flt_le (pre ! k) mp" by blast
          from flt_le_less_trans[OF this less] have "flt_less (pre ! k) x" .
          moreover have "(pre @ [x]) ! k = pre ! k"
            using k Cons.prems by (simp add: nth_append)
          ultimately show "flt_less ((pre @ [x]) ! k) x" by simp
        qed
      qed
      with False num show ?thesis by simp
    qed
  qed
qed

lemma argmax_row_first_max: "r \<noteq> [] \<Longrightarrow> first_max_at r (argmax_row r)"
proof -
  assume "r \<noteq> []"
  then obtain x xs where r: "r = x # xs" by (cases r) auto
  show ?thesis
  proof (cases "is_nan x")
    case True
    with r show ?thesis by (simp add: argmax_row_def first_max_at_def)
  next
    case False
    have "first_max_at ([x] @ xs) (argmax_from x 0 1 xs)"
      by (rule argmax_from_spec) (simp_all add: flt_le_refl False)
    with r False show ?thesis by (simp add: argmax_row_def)
  qed
qed

lemma argmax_axis1_rows:
  assumes "argmax_axis1 a = Inr labels"
  shows "labels = map argmax_row (rows a)
       \<and> length labels = length (rows a)
       \<and> (\<forall>i<length (rows a). first_max_at (rows a ! i) (labels ! i))"
proof -
  from assms have l: "labels = map argmax_row (rows a)" and ne: "[] \<notin> set (rows a)"
    by (auto simp: argmax_axis1_def split: if_splits)
  have "\<forall>i<length (rows a). first_max_at (rows a ! i) (labels ! i)"
  proof (intro allI impI)
    fix i assume i: "i < length (rows a)"
    with ne have "rows a ! i \<noteq> []" by (metis nth_mem)
    then show "first_max_at (rows a ! i) (labels ! i)"
      using l i by (simp add: argmax_row_first_max)
  qed
  with l show ?thesis by simp
qed

text \<open>
  Claim C2. The labels of the sampled images are \<^verbatim>\<open>prediction.argmax(axis=1)\<close> of the
  array that predict returned for them: one label for each row, the place of the maximum
  of the row as numpy understands it (the first NaN when the row has one, otherwise the
  first of the greatest values). The label of the drawing is the first entry of
  \<^verbatim>\<open>prediction.argmax(axis=1)\<close> of the array that predict returned for the drawing
  converted to float32: the place of the maximum of its first row.
\<close>

theorem predicted_label_argmax:
  "(cell_23 env predictor0 images w = (Inr (prediction, labels), w') \<longrightarrow>
      env_predict env (length (trace w)) predictor0 images = Inr prediction
      \<and> argmax_axis1 prediction = Inr labels
      \<and> length labels = length (rows prediction)
      \<and> (\<forall>i<length (rows prediction). first_max_at (rows prediction ! i) (labels ! i)))
   \<and> (cell_27 env predictor0 w = (Inr (prediction, label), w') \<longrightarrow>
      (\<exists>data image labels. env_data env = Some data
         \<and> env_np_array_float32 env data = Inr image
         \<and> env_predict env (length (trace w)) predictor0 image = Inr prediction
         \<and> argmax_axis1 prediction = Inr labels
         \<and> labels \<noteq> [] \<and> label = labels ! 0
         \<and> rows prediction \<noteq> []
         \<and> first_max_at (rows prediction ! 0) label))"
proof (rule conjI, goal_cases)
  case 1
  show ?case
  proof (rule impI)
    assume a: "cell_23 env predictor0 images w = (Inr (prediction, labels), w')"
    then have p: "env_predict env (length (trace w)) predictor0 images = Inr prediction"
      and l: "argmax_axis1 prediction = Inr labels"
      by (auto simp: cell_23_def bnd_def ext_def lift_def print_def ret_def
          split: sum.splits prod.splits)
    from argmax_axis1_rows[OF l] p l show
      "env_predict env (length (trace w)) predictor0 images = Inr prediction
      \<and> argmax_axis1 prediction = Inr labels
      \<and> length labels = length (rows prediction)
      \<and> (\<forall>i<length (rows prediction). first_max_at (rows prediction ! i) (labels ! i))"
      by blast
  qed
next
  case 2
  show ?case
  proof (rule impI)
    assume a: "cell_27 env predictor0 w = (Inr (prediction, label), w')"
    then obtain data image labels where
      d: "env_data env = Some data"
      and c: "env_np_array_float32 env data = Inr image"
      and p: "env_predict env (length (trace w)) predictor0 image = Inr prediction"
      and l: "argmax_axis1 prediction = Inr labels"
      and g: "py_get labels 0 = Inr label"
      by (auto simp: cell_27_def bnd_def ext_def lift_def print_def ret_def raise_def
          split: sum.splits prod.splits option.splits)
    from g have ne: "labels \<noteq> []" and lab: "label = labels ! 0"
      by (auto simp: py_get_def split: if_splits)
    note r = argmax_axis1_rows[OF l]
    from r ne have rne: "rows prediction \<noteq> []" by auto
    then have "0 < length (rows prediction)" by simp
    with r have "first_max_at (rows prediction ! 0) (labels ! 0)" by blast
    with lab have "first_max_at (rows prediction ! 0) label" by simp
    with d c p l ne lab rne show "\<exists>data image labels. env_data env = Some data
         \<and> env_np_array_float32 env data = Inr image
         \<and> env_predict env (length (trace w)) predictor0 image = Inr prediction
         \<and> argmax_axis1 prediction = Inr labels
         \<and> labels \<noteq> [] \<and> label = labels ! 0
         \<and> rows prediction \<noteq> []
         \<and> first_max_at (rows prediction ! 0) label"
      by blast
  qed
qed

theorem predicted_label_argmax_witness:
  "fst (cell_23 env_nan ''endpoint'' [img0, img0] w0)
     = Inr (\<lparr>ncols = 3, rows = [[Fin 0, NaN, Fin 1], [Fin 0, NaN, Fin 1]]\<rparr>, [1, 1])
   \<and> first_max_at [Fin 0, NaN, Fin 1] 1
   \<and> fst (cell_27 env_ok ''endpoint'' w0)
     = Inr (\<lparr>ncols = 3, rows = [[Fin 0, Fin 1, Fin (1 / 2)]]\<rparr>, 1)
   \<and> first_max_at [Fin 0, Fin 1, Fin (1 / 2)] 1"
proof -
  let ?p = "\<lparr>ncols = 3, rows = [[Fin 0, NaN, Fin 1], [Fin 0, NaN, Fin 1]]\<rparr>"
  let ?q = "\<lparr>ncols = 3, rows = [[Fin 0, Fin 1, Fin (1 / 2)]]\<rparr>"
  have a: "fst (cell_23 env_nan ''endpoint'' [img0, img0] w0) = Inr (?p, [1, 1])"
    by (simp add: run_defs data_defs env_nan_def)
  have b: "fst (cell_27 env_ok ''endpoint'' w0) = Inr (?q, 1)"
    by (simp add: run_defs data_defs)
  have a': "cell_23 env_nan ''endpoint'' [img0, img0] w0
     = (Inr (?p, [1, 1]), snd (cell_23 env_nan ''endpoint'' [img0, img0] w0))"
    using a by (metis prod.collapse)
  have b': "cell_27 env_ok ''endpoint'' w0
     = (Inr (?q, 1), snd (cell_27 env_ok ''endpoint'' w0))"
    using b by (metis prod.collapse)
  note t = predicted_label_argmax[of env_nan "''endpoint''" "[img0, img0]" w0 ?p "[1, 1]"
      "snd (cell_23 env_nan ''endpoint'' [img0, img0] w0)"]
  note u = predicted_label_argmax[of env_ok "''endpoint''" _ w0 ?q _
      "snd (cell_27 env_ok ''endpoint'' w0)" 1]
  from t a' have "\<forall>i<length (rows ?p). first_max_at (rows ?p ! i) ([1, 1] ! i)"
    by blast
  then have x: "first_max_at [Fin 0, NaN, Fin 1] 1" by force
  from u b' have "first_max_at (rows ?q ! 0) 1" by blast
  then have y: "first_max_at [Fin 0, Fin 1, Fin (1 / 2)] 1" by simp
  from a b x y show ?thesis by blast
qed

subsection \<open>Sampling without replacement\<close>

lemma sample_from_props:
  "k \<le> length pool \<Longrightarrow> distinct pool \<Longrightarrow>
     length (sample_from draw k pool) = k \<and> distinct (sample_from draw k pool)
     \<and> set (sample_from draw k pool) \<subseteq> set pool"
proof (induction k arbitrary: pool)
  case 0
  then show ?case by simp
next
  case (Suc k)
  define j where "j = draw k mod length pool"
  define rest where "rest = take j pool @ drop (Suc j) pool"
  from Suc.prems have ne: "pool \<noteq> []" by auto
  then have j: "j < length pool" by (simp add: j_def)
  have pool: "pool = take j pool @ pool ! j # drop (Suc j) pool"
    using j by (simp add: id_take_nth_drop)
  have len: "length rest = length pool - 1" using j by (simp add: rest_def)
  have d: "distinct (take j pool @ pool ! j # drop (Suc j) pool)"
    using Suc.prems(2) pool by simp
  then have drest: "distinct rest" and notin: "pool ! j \<notin> set rest"
    by (auto simp: rest_def)
  have sub: "set rest \<subseteq> set pool"
    by (auto simp: rest_def dest: in_set_takeD in_set_dropD)
  from Suc.prems len have "k \<le> length rest" by simp
  from Suc.IH[OF this drest] have ih:
    "length (sample_from draw k rest) = k" "distinct (sample_from draw k rest)"
    "set (sample_from draw k rest) \<subseteq> set rest" by simp_all
  have unf: "sample_from draw (Suc k) pool = pool ! j # sample_from draw k rest"
    using ne by (simp add: j_def rest_def Let_def)
  from ih notin sub j show ?case unfolding unf by auto
qed

text \<open>
  Claim C10. When the number of test images less one is at least 5, the sampling returns
  five indices, pairwise distinct, each below the number of test images less one, so the
  last test image is never chosen; otherwise it raises ValueError. The indices of cell 21
  are those of the sampling.
\<close>

theorem sampled_indices:
  "(5 \<le> int (length test_images) - 1 \<longrightarrow>
      (\<exists>indices. sample_indices env test_images w = (Inr indices, w)
         \<and> length indices = 5 \<and> distinct indices
         \<and> (\<forall>i\<in>set indices. i < length test_images - 1)))
   \<and> (int (length test_images) - 1 < 5 \<longrightarrow>
        sample_indices env test_images w = (Inl ValueError, w))
   \<and> (cell_21 env test_images test_labels w = (Inr (indices', images, labels), w') \<longrightarrow>
        fst (sample_indices env test_images w) = Inr indices')"
proof (intro conjI)
  show "5 \<le> int (length test_images) - 1 \<longrightarrow>
      (\<exists>indices. sample_indices env test_images w = (Inr indices, w)
         \<and> length indices = 5 \<and> distinct indices
         \<and> (\<forall>i\<in>set indices. i < length test_images - 1))"
  proof
    assume a: "5 \<le> int (length test_images) - 1"
    let ?pool = "py_range (int (length test_images) - 1)"
    let ?draw = "env_random env (length (trace w))"
    have p: "?pool = [0..<length test_images - 1]"
      by (simp add: py_range_def nat_diff_distrib')
    then have "5 \<le> length ?pool" using a by simp
    from sample_from_props[OF this, of ?draw] p have s:
      "length (sample_from ?draw 5 ?pool) = 5" "distinct (sample_from ?draw 5 ?pool)"
      "set (sample_from ?draw 5 ?pool) \<subseteq> {0..<length test_images - 1}"
      by simp_all
    have "sample_indices env test_images w = (Inr (sample_from ?draw 5 ?pool), w)"
      using \<open>5 \<le> length ?pool\<close>
      by (simp add: sample_indices_def random_sample_m_def random_sample_def num_samples_def)
    with s show "\<exists>indices. sample_indices env test_images w = (Inr indices, w)
         \<and> length indices = 5 \<and> distinct indices
         \<and> (\<forall>i\<in>set indices. i < length test_images - 1)"
      by auto
  qed
  show "int (length test_images) - 1 < 5 \<longrightarrow>
        sample_indices env test_images w = (Inl ValueError, w)"
    by (auto simp: sample_indices_def random_sample_m_def random_sample_def num_samples_def
        py_range_def)
  show "cell_21 env test_images test_labels w = (Inr (indices', images, labels), w') \<longrightarrow>
        fst (sample_indices env test_images w) = Inr indices'"
    by (auto simp: cell_21_def bnd_def ret_def lift_def sample_indices_def random_sample_m_def
        split: sum.splits prod.splits)
qed

theorem sampled_indices_witness:
  "sample_indices env_ok (map fst test0) w0 = (Inr [4, 3, 2, 1, 0], w0)
   \<and> length [4, 3, 2, 1, 0 :: nat] = 5 \<and> distinct [4, 3, 2, 1, 0 :: nat]
   \<and> list_all (\<lambda>i. i < length (map fst test0) - 1) [4, 3, 2, 1, 0]
   \<and> sample_indices env_ok (map fst train0) w0 = (Inl ValueError, w0)
   \<and> fst (cell_21 env_ok (map fst test0) (map snd test0) w0)
       = Inr ([4, 3, 2, 1, 0], [img0, img0, img0, img0, img0], [4, 0, 1, 2, 7])"
proof -
  have h1: "5 \<le> int (length (map fst test0)) - 1" by (simp add: test0_def)
  have h2: "int (length (map fst train0)) - 1 < 5" by (simp add: train0_def)
  have e: "sample_indices env_ok (map fst test0) w0 = (Inr [4, 3, 2, 1, 0], w0)"
    by (simp add: run_defs data_defs)
  have c: "fst (cell_21 env_ok (map fst test0) (map snd test0) w0)
       = Inr ([4, 3, 2, 1, 0], [img0, img0, img0, img0, img0], [4, 0, 1, 2, 7])"
    by (simp add: run_defs data_defs)
  from sampled_indices[of "map fst test0" env_ok w0] h1 e
  have "length [4, 3, 2, 1, 0 :: nat] = 5 \<and> distinct [4, 3, 2, 1, 0 :: nat]
     \<and> (\<forall>i\<in>set [4, 3, 2, 1, 0 :: nat]. i < length (map fst test0) - 1)"
    by auto
  then have a: "length [4, 3, 2, 1, 0 :: nat] = 5 \<and> distinct [4, 3, 2, 1, 0 :: nat]
     \<and> list_all (\<lambda>i. i < length (map fst test0) - 1) [4, 3, 2, 1, 0]"
    by (auto simp: list_all_iff)
  from sampled_indices[of "map fst train0" env_ok w0] h2
  have b: "sample_indices env_ok (map fst train0) w0 = (Inl ValueError, w0)"
    by blast
  from a b c e show ?thesis by blast
qed

subsection \<open>The replacement in the artifact location\<close>

lemma replace_scan_Cons:
  "replace_scan old new (c # cs) =
     (if old \<noteq> [] \<and> prefix old (c # cs)
      then new @ replace_scan old new (drop (length old) (c # cs))
      else c # replace_scan old new cs)"
  by simp

lemma replace_scan_at:
  assumes "old \<noteq> []"
  shows "replace_scan old new (old @ b) = new @ replace_scan old new b"
proof -
  from assms obtain c cs where o: "old @ b = c # cs" by (cases old) auto
  have "prefix old (c # cs)" using o by (metis prefixI)
  then have "replace_scan old new (c # cs) =
      new @ replace_scan old new (drop (length old) (c # cs))"
    using assms by simp
  moreover have "drop (length old) (c # cs) = b" using o by (metis append_eq_conv_conj)
  ultimately show ?thesis using o by simp
qed

lemma replace_scan_first:
  assumes "old \<noteq> []" and "\<not> sublist old (a @ butlast old)"
  shows "replace_scan old new (a @ old @ b) = a @ new @ replace_scan old new b"
  using assms(2)
proof (induction a)
  case Nil
  then show ?case using assms(1) by (simp add: replace_scan_at)
next
  case (Cons c a)
  have np: "\<not> prefix old (c # a @ old @ b)"
  proof
    assume p: "prefix old (c # a @ old @ b)"
    have q: "prefix ((c # a) @ butlast old) (c # a @ old @ b)"
      using assms(1) by (simp add: prefix_def) (metis append_butlast_last_id append_assoc)
    have "length old \<le> length ((c # a) @ butlast old)" by simp
    from prefix_length_prefix[OF p q this] have "prefix old ((c # a) @ butlast old)" .
    then have "sublist old ((c # a) @ butlast old)" by (rule prefix_imp_sublist)
    with Cons.prems show False by simp
  qed
  from Cons.prems have "\<not> sublist old (a @ butlast old)"
    by (simp add: sublist_Cons_right)
  from Cons.IH[OF this] np show ?case by simp
qed

lemma suffix_l: "prefix ''l'' (replace_scan ''model'' ''output'' s) \<Longrightarrow> prefix ''l'' s"
  by (cases s) (auto split: if_splits)

lemma suffix_el: "prefix ''el'' (replace_scan ''model'' ''output'' s) \<Longrightarrow> prefix ''el'' s"
  using suffix_l by (cases s) (auto split: if_splits)

lemma suffix_del: "prefix ''del'' (replace_scan ''model'' ''output'' s) \<Longrightarrow> prefix ''del'' s"
  using suffix_el by (cases s) (auto split: if_splits)

lemma suffix_odel:
  "prefix ''odel'' (replace_scan ''model'' ''output'' s) \<Longrightarrow> prefix ''odel'' s"
  using suffix_del by (cases s) (auto split: if_splits)

lemma no_model_after_output:
  "\<not> sublist ''model'' t \<Longrightarrow> \<not> sublist ''model'' (''output'' @ t)"
  by (simp add: sublist_Cons_right)

lemma replace_scan_no_model: "\<not> sublist ''model'' (replace_scan ''model'' ''output'' s)"
proof (induction s rule: length_induct)
  case (1 s)
  show ?case
  proof (cases s)
    case Nil
    then show ?thesis by simp
  next
    case (Cons c cs)
    show ?thesis
    proof (cases "prefix ''model'' (c # cs)")
      case True
      define t where "t = drop (length ''model'') (c # cs)"
      have "length t < length s" using Cons by (simp add: t_def)
      with 1 have "\<not> sublist ''model'' (replace_scan ''model'' ''output'' t)"
        by blast
      then have "\<not> sublist ''model'' (''output'' @ replace_scan ''model'' ''output'' t)"
        by (rule no_model_after_output)
      moreover have "replace_scan ''model'' ''output'' (c # cs)
          = ''output'' @ replace_scan ''model'' ''output'' t"
        unfolding t_def using True by (subst replace_scan_Cons) simp
      ultimately show ?thesis using Cons by simp
    next
      case False
      have "length cs < length s" using Cons by simp
      with 1 have ih: "\<not> sublist ''model'' (replace_scan ''model'' ''output'' cs)" by blast
      have "\<not> prefix ''model'' (c # replace_scan ''model'' ''output'' cs)"
      proof
        assume "prefix ''model'' (c # replace_scan ''model'' ''output'' cs)"
        then have c: "c = CHR ''m''"
          and p: "prefix ''odel'' (replace_scan ''model'' ''output'' cs)"
          by auto
        from suffix_odel[OF p] c have "prefix ''model'' (c # cs)" by simp
        with False show False by simp
      qed
      then have "\<not> sublist ''model'' (c # replace_scan ''model'' ''output'' cs)"
        using ih by (simp only: sublist_Cons_right simp_thms not_False_eq_True)
      moreover have "replace_scan ''model'' ''output'' (c # cs)
          = c # replace_scan ''model'' ''output'' cs"
        using False by (simp only: replace_scan.simps simp_thms if_False)
      ultimately show ?thesis unfolding Cons by (simp only: not_False_eq_True)
    qed
  qed
qed

lemma make_output_dir_trace:
  assumes "make_output_dir env w = (r, w1)"
  shows "\<exists>mk. trace w1 = trace w @ [(Makedirs ''output/single_machine_mnist'', mk)]"
  using assms
  by (auto simp: make_output_dir_def try_except_OSError_def os_makedirs_def proc_def ext_def
      ret_def proc_outcome_def split: sum.splits option.splits if_splits)

lemma fetch_artifacts_result:
  assumes "fetch_artifacts env sess est w = (Inr out, w')"
  shows "\<exists>job desc artifacts uri.
          env_latest_training_job_name env (length (trace w)) est = Inr job
        \<and> env_describe_training_job env (Suc (length (trace w))) job = Inr desc
        \<and> dict_get desc ''ModelArtifacts'' = Inr artifacts
        \<and> dict_get artifacts ''S3ModelArtifacts'' = Inr uri
        \<and> out = py_replace uri ''model'' ''output''
        \<and> trace w' = trace w @
             [(LatestTrainingJobName est, None),
              (DescribeTrainingJob job, None),
              (Shell (''aws --region '' @ region_name sess @ '' s3 cp ''
                       @ py_replace uri ''model'' ''output''
                       @ '' output/single_machine_mnist/output.tar''), None),
              (Shell ''tar -xzvf output/single_machine_mnist/output.tar -C output/single_machine_mnist'',
               None)]"
proof -
  obtain job where j: "env_latest_training_job_name env (length (trace w)) est = Inr job"
    using assms
    by (cases "env_latest_training_job_name env (length (trace w)) est")
       (auto simp: fetch_artifacts_def bnd_def ext_def)
  obtain desc where d: "env_describe_training_job env (Suc (length (trace w))) job = Inr desc"
    using assms j
    by (cases "env_describe_training_job env (Suc (length (trace w))) job")
       (auto simp: fetch_artifacts_def bnd_def ext_def)
  obtain artifacts where a: "dict_get desc ''ModelArtifacts'' = Inr artifacts"
    using assms j d
    by (cases "dict_get desc ''ModelArtifacts''")
       (auto simp: fetch_artifacts_def bnd_def ext_def lift_def)
  obtain uri where u: "dict_get artifacts ''S3ModelArtifacts'' = Inr uri"
    using assms j d a
    by (cases "dict_get artifacts ''S3ModelArtifacts''")
       (auto simp: fetch_artifacts_def bnd_def ext_def lift_def)
  have "out = py_replace uri ''model'' ''output''
        \<and> trace w' = trace w @
             [(LatestTrainingJobName est, None),
              (DescribeTrainingJob job, None),
              (Shell (''aws --region '' @ region_name sess @ '' s3 cp ''
                       @ py_replace uri ''model'' ''output''
                       @ '' output/single_machine_mnist/output.tar''), None),
              (Shell ''tar -xzvf output/single_machine_mnist/output.tar -C output/single_machine_mnist'',
               None)]"
    using assms j d a u
    by (auto simp: fetch_artifacts_def bnd_def ext_def lift_def Let_def shell_def ret_def)
  with j d a u show ?thesis by blast
qed

text \<open>
  Claim C9. The location from which the output artifacts are downloaded, the one written
  into the \<^verbatim>\<open>aws s3 cp\<close> command of cell 15, is the location of the model artifacts (the
  entry S3ModelArtifacts of ModelArtifacts in the description of the latest training job
  of the estimator) with \<^verbatim>\<open>replace('model', 'output')\<close> applied to the whole string: the
  first occurrence of 'model', wherever it is, is rewritten and the replacement goes on
  behind it, so that no occurrence of 'model' is left anywhere in the result.
\<close>

theorem output_location:
  "(cell_15 env sess est w = (Inr output_data, w') \<longrightarrow>
      (\<exists>mk job desc artifacts uri.
          env_latest_training_job_name env (Suc (length (trace w))) est = Inr job
        \<and> env_describe_training_job env (Suc (Suc (length (trace w)))) job = Inr desc
        \<and> dict_get desc ''ModelArtifacts'' = Inr artifacts
        \<and> dict_get artifacts ''S3ModelArtifacts'' = Inr uri
        \<and> output_data = py_replace uri ''model'' ''output''
        \<and> trace w' = trace w @
             [(Makedirs ''output/single_machine_mnist'', mk),
              (LatestTrainingJobName est, None),
              (DescribeTrainingJob job, None),
              (Shell (''aws --region '' @ region_name sess @ '' s3 cp ''
                       @ py_replace uri ''model'' ''output''
                       @ '' output/single_machine_mnist/output.tar''), None),
              (Shell ''tar -xzvf output/single_machine_mnist/output.tar -C output/single_machine_mnist'',
               None)]))
   \<and> (\<not> sublist ''model'' (a @ ''mode'') \<longrightarrow>
        py_replace (a @ ''model'' @ b) ''model'' ''output''
          = a @ ''output'' @ py_replace b ''model'' ''output'')
   \<and> \<not> sublist ''model'' (py_replace s ''model'' ''output'')"
proof (rule conjI, goal_cases)
  case 1
  show ?case
  proof (rule impI)
    assume "cell_15 env sess est w = (Inr output_data, w')"
    then obtain w1 where m: "make_output_dir env w = (Inr (), w1)"
      and f: "fetch_artifacts env sess est w1 = (Inr output_data, w')"
      by (auto simp: cell_15_def bnd_def split: sum.splits prod.splits)
    from make_output_dir_trace[OF m] obtain mk where
      t1: "trace w1 = trace w @ [(Makedirs ''output/single_machine_mnist'', mk)]" by blast
    then have len: "length (trace w1) = Suc (length (trace w))" by simp
    from fetch_artifacts_result[OF f] obtain job desc artifacts uri where
      r: "env_latest_training_job_name env (length (trace w1)) est = Inr job"
         "env_describe_training_job env (Suc (length (trace w1))) job = Inr desc"
         "dict_get desc ''ModelArtifacts'' = Inr artifacts"
         "dict_get artifacts ''S3ModelArtifacts'' = Inr uri"
         "output_data = py_replace uri ''model'' ''output''"
         "trace w' = trace w1 @
             [(LatestTrainingJobName est, None),
              (DescribeTrainingJob job, None),
              (Shell (''aws --region '' @ region_name sess @ '' s3 cp ''
                       @ py_replace uri ''model'' ''output''
                       @ '' output/single_machine_mnist/output.tar''), None),
              (Shell ''tar -xzvf output/single_machine_mnist/output.tar -C output/single_machine_mnist'',
               None)]"
      by blast
    from r(6) t1 have tr: "trace w' = trace w @
             [(Makedirs ''output/single_machine_mnist'', mk),
              (LatestTrainingJobName est, None),
              (DescribeTrainingJob job, None),
              (Shell (''aws --region '' @ region_name sess @ '' s3 cp ''
                       @ py_replace uri ''model'' ''output''
                       @ '' output/single_machine_mnist/output.tar''), None),
              (Shell ''tar -xzvf output/single_machine_mnist/output.tar -C output/single_machine_mnist'',
               None)]"
      by simp
    from r(1,2) len have
      j: "env_latest_training_job_name env (Suc (length (trace w))) est = Inr job"
      and d: "env_describe_training_job env (Suc (Suc (length (trace w)))) job = Inr desc"
      by simp_all
    from j d r(3,4,5) tr show "\<exists>mk job desc artifacts uri.
          env_latest_training_job_name env (Suc (length (trace w))) est = Inr job
        \<and> env_describe_training_job env (Suc (Suc (length (trace w)))) job = Inr desc
        \<and> dict_get desc ''ModelArtifacts'' = Inr artifacts
        \<and> dict_get artifacts ''S3ModelArtifacts'' = Inr uri
        \<and> output_data = py_replace uri ''model'' ''output''
        \<and> trace w' = trace w @
             [(Makedirs ''output/single_machine_mnist'', mk),
              (LatestTrainingJobName est, None),
              (DescribeTrainingJob job, None),
              (Shell (''aws --region '' @ region_name sess @ '' s3 cp ''
                       @ py_replace uri ''model'' ''output''
                       @ '' output/single_machine_mnist/output.tar''), None),
              (Shell ''tar -xzvf output/single_machine_mnist/output.tar -C output/single_machine_mnist'',
               None)]"
      by blast
  qed
next
  case 2
  show ?case
  proof (rule conjI)
    show "\<not> sublist ''model'' (a @ ''mode'') \<longrightarrow>
        py_replace (a @ ''model'' @ b) ''model'' ''output''
          = a @ ''output'' @ py_replace b ''model'' ''output''"
      using replace_scan_first[of "''model''" a "''output''" b]
      by (simp add: py_replace_def)
    show "\<not> sublist ''model'' (py_replace s ''model'' ''output'')"
      by (simp add: py_replace_def replace_scan_no_model)
  qed
qed

theorem output_location_witness:
  "cell_15 env_ok sess0 est0 w0 =
     (Inr ''s3://output-bucket/job/output/output.tar.gz'',
      \<lparr>trace = [(Makedirs ''output/single_machine_mnist'', None),
                (LatestTrainingJobName est0, None),
                (DescribeTrainingJob ''job'', None),
                (Shell ''aws --region us-west-2 s3 cp s3://output-bucket/job/output/output.tar.gz output/single_machine_mnist/output.tar'', None),
                (Shell ''tar -xzvf output/single_machine_mnist/output.tar -C output/single_machine_mnist'', None)],
       fs = {''output'', ''output/single_machine_mnist''}\<rparr>)
   \<and> (\<exists>mk job desc artifacts uri.
          env_latest_training_job_name env_ok (Suc (length (trace w0))) est0 = Inr job
        \<and> env_describe_training_job env_ok (Suc (Suc (length (trace w0)))) job = Inr desc
        \<and> dict_get desc ''ModelArtifacts'' = Inr artifacts
        \<and> dict_get artifacts ''S3ModelArtifacts'' = Inr uri
        \<and> ''s3://output-bucket/job/output/output.tar.gz'' = py_replace uri ''model'' ''output''
        \<and> trace (snd (cell_15 env_ok sess0 est0 w0)) = trace w0 @
             [(Makedirs ''output/single_machine_mnist'', mk),
              (LatestTrainingJobName est0, None),
              (DescribeTrainingJob job, None),
              (Shell (''aws --region '' @ region_name sess0 @ '' s3 cp ''
                       @ py_replace uri ''model'' ''output''
                       @ '' output/single_machine_mnist/output.tar''), None),
              (Shell ''tar -xzvf output/single_machine_mnist/output.tar -C output/single_machine_mnist'',
               None)])
   \<and> \<not> sublist ''model'' (''s3://'' @ ''mode'')
   \<and> py_replace (''s3://'' @ ''model'' @ ''-bucket/job/output/model.tar.gz'') ''model'' ''output''
        = ''s3://'' @ ''output'' @ ''-bucket/job/output/output.tar.gz''"
proof -
  have h: "\<not> sublist ''model'' (''s3://'' @ ''mode'')"
    by (simp add: sublist_Cons_right)
  have r: "cell_15 env_ok sess0 est0 w0 =
     (Inr ''s3://output-bucket/job/output/output.tar.gz'',
      \<lparr>trace = [(Makedirs ''output/single_machine_mnist'', None),
                (LatestTrainingJobName est0, None),
                (DescribeTrainingJob ''job'', None),
                (Shell ''aws --region us-west-2 s3 cp s3://output-bucket/job/output/output.tar.gz output/single_machine_mnist/output.tar'', None),
                (Shell ''tar -xzvf output/single_machine_mnist/output.tar -C output/single_machine_mnist'', None)],
       fs = {''output'', ''output/single_machine_mnist''}\<rparr>)"
    by (simp add: run_defs data_defs fs_makedirs_def under_def prefixes_snoc[symmetric])
  have r': "cell_15 env_ok sess0 est0 w0 =
     (Inr ''s3://output-bucket/job/output/output.tar.gz'', snd (cell_15 env_ok sess0 est0 w0))"
    using r by simp
  have p: "py_replace ''-bucket/job/output/model.tar.gz'' ''model'' ''output''
             = ''-bucket/job/output/output.tar.gz''"
    by (simp add: py_replace_def)
  note t = output_location[of env_ok sess0 est0 w0 "''s3://output-bucket/job/output/output.tar.gz''"
      "snd (cell_15 env_ok sess0 est0 w0)" "''s3://''" "''-bucket/job/output/model.tar.gz''"]
  from t r' have e: "\<exists>mk job desc artifacts uri.
          env_latest_training_job_name env_ok (Suc (length (trace w0))) est0 = Inr job
        \<and> env_describe_training_job env_ok (Suc (Suc (length (trace w0)))) job = Inr desc
        \<and> dict_get desc ''ModelArtifacts'' = Inr artifacts
        \<and> dict_get artifacts ''S3ModelArtifacts'' = Inr uri
        \<and> ''s3://output-bucket/job/output/output.tar.gz'' = py_replace uri ''model'' ''output''
        \<and> trace (snd (cell_15 env_ok sess0 est0 w0)) = trace w0 @
             [(Makedirs ''output/single_machine_mnist'', mk),
              (LatestTrainingJobName est0, None),
              (DescribeTrainingJob job, None),
              (Shell (''aws --region '' @ region_name sess0 @ '' s3 cp ''
                       @ py_replace uri ''model'' ''output''
                       @ '' output/single_machine_mnist/output.tar''), None),
              (Shell ''tar -xzvf output/single_machine_mnist/output.tar -C output/single_machine_mnist'',
               None)]"
    by blast
  from t h
  have q: "py_replace (''s3://'' @ ''model'' @ ''-bucket/job/output/model.tar.gz'') ''model'' ''output''
        = ''s3://'' @ ''output'' @ py_replace ''-bucket/job/output/model.tar.gz'' ''model'' ''output''"
    by blast
  from r e h q p show ?thesis by (simp only: simp_thms)
qed

end
